theory Spec2Isabelle
  imports Complex_Main "HOL-Library.Char_ord" "HOL-Library.List_Lexorder"
begin

section \<open>Data model of \<open>ml_investment/targets.py\<close>\<close>

text \<open>
  A ticker is a string. A date (\<open>np.datetime64\<close>) is a day number; a request date may be the
  null date \<open>NaT\<close>, which is \<open>None\<close>. A value of a frame column is a \<open>cell\<close>: the null value
  (\<open>np.nan\<close>, \<open>None\<close> and \<open>NaT\<close> are all null for pandas), a finite number, an infinity
  (\<open>Inf True\<close> is \<open>+inf\<close>) or a date. Finite floating-point numbers are idealised as reals:
  rounding and overflow are not modelled.
\<close>

type_synonym ticker = string
type_synonym date = int

datatype cell = NaN | Num real | Inf bool | Date date

text \<open>
  The exceptions: the failed \<open>assert\<close> of \<open>QuarterlyTarget\<close>, the \<open>ValueError\<close> of
  \<open>pd.concat\<close>, the \<open>TypeError\<close> of \<open>np.datetime64\<close> on the null date, and whatever a
  caller's aggregation function raises.
\<close>

datatype error = AssertionError | ValueError | TypeError | AggregationError

text \<open>
  A row of the quarterly frame: its \<open>date\<close> column and the other columns by name.
  \<open>getcol c r\<close> is \<open>quarterly_data[c].values[i]\<close> for the row \<open>r\<close> at position \<open>i\<close>; the
  frame is taken to have the column.
\<close>

record qrow =
  qdate :: date
  qcols :: "string \<Rightarrow> cell"

definition getcol :: "string \<Rightarrow> qrow \<Rightarrow> cell" where
  "getcol c r = (if c = ''date'' then Date (qdate r) else qcols r c)"

text \<open>A row of the daily frame; \<open>'v\<close> is the type of the numbers its columns hold.\<close>

record 'v drow =
  ddate :: date
  dcols :: "string \<Rightarrow> 'v"

text \<open>
  The request table \<open>info_df\<close> is a list of (ticker, date) rows; a result frame is a list
  of (ticker, date, y) rows.
\<close>

type_synonym info_row = "ticker \<times> date option"
type_synonym result_row = "ticker \<times> date option \<times> cell"

definition row_key :: "result_row \<Rightarrow> info_row" where
  "row_key r = (fst r, fst (snd r))"

definition row_y :: "result_row \<Rightarrow> cell" where
  "row_y r = snd (snd r)"

section \<open>Helpers: loops, indexing and the pandas operations used\<close>

text \<open>
  A \<open>for\<close> loop that appends one value per element and stops at the first raise; also
  \<open>Pool.imap\<close>, which yields the workers' results in the order of the work items and
  re-raises a worker's exception there.
\<close>

fun map_err :: "('a \<Rightarrow> error + 'b) \<Rightarrow> 'a list \<Rightarrow> error + 'b list" where
  "map_err f [] = Inr []"
| "map_err f (x # xs) =
     (case f x of
        Inl e \<Rightarrow> Inl e
      | Inr y \<Rightarrow> (case map_err f xs of Inl e \<Rightarrow> Inl e | Inr ys \<Rightarrow> Inr (y # ys)))"

text \<open>\<open>np.where(dates == d)[0][0]\<close>: the first position holding \<open>d\<close>, if any.\<close>

fun first_index :: "'a list \<Rightarrow> 'a \<Rightarrow> nat option" where
  "first_index [] d = None"
| "first_index (x # xs) d = (if x = d then Some 0 else map_option Suc (first_index xs d))"

text \<open>
  \<open>info_df.groupby('ticker')['date'].apply(lambda x: x.tolist()).reset_index()\<close>: one work
  item per ticker, tickers in sorted order, the dates of a ticker in the order of the rows.
\<close>

definition group_by_ticker :: "info_row list \<Rightarrow> (ticker \<times> date option list) list" where
  "group_by_ticker info_df =
     map (\<lambda>t. (t, map snd (filter (\<lambda>r. fst r = t) info_df)))
         (sort (remdups (map fst info_df)))"

text \<open>\<open>pd.concat(result, axis=0)\<close> raises \<open>ValueError\<close> when there is no frame.\<close>

definition pd_concat :: "result_row list list \<Rightarrow> error + result_row list" where
  "pd_concat frames = (if frames = [] then Inl ValueError else Inr (concat frames))"

text \<open>\<open>result.drop_duplicates(['ticker', 'date'])\<close> keeps the first row of every key.\<close>

fun drop_duplicates :: "result_row list \<Rightarrow> result_row list" where
  "drop_duplicates [] = []"
| "drop_duplicates (r # rs) =
     r # drop_duplicates (filter (\<lambda>r'. row_key r' \<noteq> row_key r) rs)"

text \<open>
  \<open>pd.merge(info_df, result, on=['ticker', 'date'], how='left')\<close>: the rows of \<open>info_df\<close> in
  their order, each once per row of \<open>result\<close> with its key, or once with a null \<open>y\<close> when
  no row of \<open>result\<close> has its key.
\<close>

definition merge_left :: "info_row list \<Rightarrow> result_row list \<Rightarrow> result_row list" where
  "merge_left info_df result =
     concat (map (\<lambda>k. case filter (\<lambda>r. row_key r = k) result of
                         [] \<Rightarrow> [(fst k, snd k, NaN)]
                       | ms \<Rightarrow> map (\<lambda>m. (fst k, snd k, row_y m)) ms) info_df)"

section \<open>\<open>QuarterlyTarget\<close>\<close>

text \<open>
  The body of the loop over \<open>dates\<close> in \<open>QuarterlyTarget._single_ticker_target\<close>;
  \<open>quarterly_data\<close> is the loaded frame, already reversed. A null request date is no
  quarter date: the \<open>assert\<close> statement fails for it as well (\<open>np.datetime64\<close> raises inside
  it), which is taken as the same failure of the exact-match check.
\<close>

definition QuarterlyTarget_date_value ::
    "string \<Rightarrow> int \<Rightarrow> qrow list \<Rightarrow> date option \<Rightarrow> error + cell" where
  "QuarterlyTarget_date_value col quarter_shift quarterly_data date =
     (case date of
        None \<Rightarrow> Inl AssertionError
      | Some d \<Rightarrow>
         (case first_index (map qdate quarterly_data) d of
            None \<Rightarrow> Inl AssertionError
          | Some curr_quarter_idx \<Rightarrow>
              (let idx = int curr_quarter_idx + quarter_shift in
               if idx \<ge> 0 \<and> idx < int (length quarterly_data)
               then Inr (getcol col (quarterly_data ! nat idx))
               else Inr NaN)))"

definition QuarterlyTarget_single_ticker_target ::
    "(ticker \<Rightarrow> qrow list) \<Rightarrow> string \<Rightarrow> int \<Rightarrow> ticker \<times> date option list
       \<Rightarrow> error + result_row list" where
  "QuarterlyTarget_single_ticker_target load_quarterly_data col quarter_shift ticker_and_dates =
     (let ticker = fst ticker_and_dates; dates = snd ticker_and_dates;
          quarterly_data = rev (load_quarterly_data ticker)
      in case map_err (QuarterlyTarget_date_value col quarter_shift quarterly_data) dates of
           Inl e \<Rightarrow> Inl e
         | Inr vals \<Rightarrow> Inr (map (\<lambda>(v, d). (ticker, d, v)) (zip vals dates)))"

definition QuarterlyTarget_calculate ::
    "(ticker \<Rightarrow> qrow list) \<Rightarrow> string \<Rightarrow> int \<Rightarrow> info_row list \<Rightarrow> error + result_row list" where
  "QuarterlyTarget_calculate data_loader col quarter_shift info_df =
     (case map_err (QuarterlyTarget_single_ticker_target data_loader col quarter_shift)
                   (group_by_ticker info_df) of
        Inl e \<Rightarrow> Inl e
      | Inr result \<Rightarrow>
         (case pd_concat result of
            Inl e \<Rightarrow> Inl e
          | Inr result \<Rightarrow> Inr (merge_left info_df (drop_duplicates result))))"

section \<open>\<open>QuarterlyDiffTarget\<close> and \<open>QuarterlyBinDiffTarget\<close>\<close>

text \<open>
  Arithmetic of a \<open>y\<close> column of numbers. A null operand gives null, \<open>inf - inf\<close> and
  \<open>0 / 0\<close> are null (\<open>nan\<close>), a finite nonzero number over zero is an infinity. The
  divisor is always an absolute value, so its zero is \<open>+0.0\<close>. The targets are built
  for numeric columns: an operand that is a date is given the null result here.
\<close>

fun cell_sub :: "cell \<Rightarrow> cell \<Rightarrow> cell" where
  "cell_sub (Num a) (Num b) = Num (a - b)"
| "cell_sub (Inf s) (Num b) = Inf s"
| "cell_sub (Num a) (Inf s) = Inf (\<not> s)"
| "cell_sub (Inf s) (Inf s') = (if s = s' then NaN else Inf s)"
| "cell_sub _ _ = NaN"

fun cell_abs :: "cell \<Rightarrow> cell" where
  "cell_abs (Num a) = Num \<bar>a\<bar>"
| "cell_abs (Inf s) = Inf True"
| "cell_abs _ = NaN"

fun cell_div :: "cell \<Rightarrow> cell \<Rightarrow> cell" where
  "cell_div (Num a) (Num b) =
     (if b \<noteq> 0 then Num (a / b)
      else if a > 0 then Inf True else if a < 0 then Inf False else NaN)"
| "cell_div (Inf s) (Num b) = (if b \<ge> 0 then Inf s else Inf (\<not> s))"
| "cell_div (Num a) (Inf s) = Num 0"
| "cell_div _ _ = NaN"

text \<open>
  \<open>df['y'] = ys\<close>, and the row-by-row combination of the \<open>y\<close> columns of two frames: both
  come from the same \<open>info_df\<close>, so their indexes are equal and pandas combines by position.
  The flag \<open>norm\<close> of \<open>QuarterlyDiffTarget\<close> is written \<open>normalise\<close>.
\<close>

definition set_y :: "result_row list \<Rightarrow> cell list \<Rightarrow> result_row list" where
  "set_y df ys = map (\<lambda>(r, v). (fst r, fst (snd r), v)) (zip df ys)"

definition QuarterlyDiffTarget_calculate ::
    "(ticker \<Rightarrow> qrow list) \<Rightarrow> string \<Rightarrow> bool \<Rightarrow> info_row list \<Rightarrow> error + result_row list" where
  "QuarterlyDiffTarget_calculate data_loader col normalise info_df =
     (case QuarterlyTarget_calculate data_loader col 0 info_df of
        Inl e \<Rightarrow> Inl e
      | Inr curr_df \<Rightarrow>
         (case QuarterlyTarget_calculate data_loader col (- 1) info_df of
            Inl e \<Rightarrow> Inl e
          | Inr last_df \<Rightarrow>
             (let curr_df = set_y curr_df
                    (map (\<lambda>(c, l). cell_sub c l) (zip (map row_y curr_df) (map row_y last_df)))
              in if normalise
                 then Inr (set_y curr_df
                        (map (\<lambda>(c, l). cell_div c (cell_abs l))
                             (zip (map row_y curr_df) (map row_y last_df))))
                 else Inr curr_df)))"

text \<open>
  \<open>QuarterlyBinDiffTarget.calculate\<close>: on the rows whose \<open>y\<close> is not null, \<open>y\<close> becomes
  \<open>y > 0\<close>; then the column is cast to float, \<open>True\<close> to \<open>1.0\<close> and \<open>False\<close> to \<open>0.0\<close>.
\<close>

fun binarize :: "cell \<Rightarrow> cell" where
  "binarize (Num a) = (if a > 0 then Num 1 else Num 0)"
| "binarize (Inf s) = (if s then Num 1 else Num 0)"
| "binarize c = NaN"

definition QuarterlyBinDiffTarget_calculate ::
    "(ticker \<Rightarrow> qrow list) \<Rightarrow> string \<Rightarrow> info_row list \<Rightarrow> error + result_row list" where
  "QuarterlyBinDiffTarget_calculate data_loader col info_df =
     (case QuarterlyDiffTarget_calculate data_loader col False info_df of
        Inl e \<Rightarrow> Inl e
      | Inr target_df \<Rightarrow> Inr (set_y target_df (map binarize (map row_y target_df))))"

section \<open>\<open>DailyAggTarget\<close>\<close>

text \<open>
  The series of the loop body of \<open>DailyAggTarget._single_ticker_target\<close> for a request date
  that is not null; \<open>daily_data\<close> is the loaded frame, already reversed.
  \<open>values[:horizon]\<close> keeps the first \<open>horizon\<close> values; \<open>values[horizon:]\<close> with a negative
  \<open>horizon\<close> keeps the last \<open>-horizon\<close> values, all of them when there are fewer.
\<close>

definition DailyAggTarget_series ::
    "string \<Rightarrow> int \<Rightarrow> 'v drow list \<Rightarrow> date \<Rightarrow> 'v list" where
  "DailyAggTarget_series col horizon daily_data d =
     (if horizon \<ge> 0
      then (let series = filter (\<lambda>r. ddate r \<ge> d) daily_data
            in take (nat horizon) (map (\<lambda>r. dcols r col) series))
      else (let series = filter (\<lambda>r. ddate r < d) daily_data;
                vals = map (\<lambda>r. dcols r col) series
            in drop (nat (int (length vals) + horizon)) vals))"

text \<open>
  The body of the loop over \<open>dates\<close>. Both branches evaluate \<open>np.datetime64(date)\<close> first,
  which raises \<open>TypeError\<close> for the null date \<open>NaT\<close> of a date column; otherwise the
  aggregation function \<open>foo\<close> is applied to the series.
\<close>

definition DailyAggTarget_date_value ::
    "string \<Rightarrow> int \<Rightarrow> ('v list \<Rightarrow> error + cell) \<Rightarrow> 'v drow list \<Rightarrow> date option
       \<Rightarrow> error + cell" where
  "DailyAggTarget_date_value col horizon foo daily_data date =
     (case date of
        None \<Rightarrow> Inl TypeError
      | Some d \<Rightarrow> foo (DailyAggTarget_series col horizon daily_data d))"

text \<open>
  \<open>load_daily_data\<close> returns \<open>None\<close> for a ticker without daily history; the result then
  keeps the null \<open>y\<close> it was created with, and the loop over the dates is not entered.
\<close>

definition DailyAggTarget_single_ticker_target ::
    "(ticker \<Rightarrow> 'v drow list option) \<Rightarrow> string \<Rightarrow> int \<Rightarrow> ('v list \<Rightarrow> error + cell)
       \<Rightarrow> ticker \<times> date option list \<Rightarrow> error + result_row list" where
  "DailyAggTarget_single_ticker_target load_daily_data col horizon foo ticker_and_dates =
     (let ticker = fst ticker_and_dates; dates = snd ticker_and_dates;
          result = map (\<lambda>d. (ticker, d, NaN)) dates
      in case load_daily_data ticker of
           None \<Rightarrow> Inr result
         | Some daily \<Rightarrow>
            (let daily_data = rev daily
             in case map_err (DailyAggTarget_date_value col horizon foo daily_data) dates of
                  Inl e \<Rightarrow> Inl e
                | Inr vals \<Rightarrow> Inr (map (\<lambda>(v, d). (ticker, d, v)) (zip vals dates))))"

definition DailyAggTarget_calculate ::
    "(ticker \<Rightarrow> 'v drow list option) \<Rightarrow> string \<Rightarrow> int \<Rightarrow> ('v list \<Rightarrow> error + cell)
       \<Rightarrow> info_row list \<Rightarrow> error + result_row list" where
  "DailyAggTarget_calculate data_loader col horizon foo info_df =
     (case map_err (DailyAggTarget_single_ticker_target data_loader col horizon foo)
                   (group_by_ticker info_df) of
        Inl e \<Rightarrow> Inl e
      | Inr result \<Rightarrow>
         (case pd_concat result of
            Inl e \<Rightarrow> Inl e
          | Inr result \<Rightarrow> Inr (merge_left info_df (drop_duplicates result))))"

text \<open>\<open>np.mean\<close> of a float array: \<open>nan\<close> (with a warning, no exception) on the empty array.\<close>

definition np_mean_value :: "real list \<Rightarrow> cell" where
  "np_mean_value xs = (if xs = [] then NaN else Num (sum_list xs / real (length xs)))"

definition np_mean :: "real list \<Rightarrow> error + cell" where
  "np_mean xs = Inr (np_mean_value xs)"

section \<open>Rebasing the request dates (\<open>DailySmoothedQuarterlyDiffTarget.calculate\<close>)\<close>

text \<open>
  \<open>last_date_df['date'] = last_date_df['y']; del last_date_df['y']\<close>: the \<open>y\<close> column, read
  from the \<open>date\<close> column by a \<open>QuarterlyTarget\<close>, becomes the request date; a null \<open>y\<close> is
  the null date.
\<close>

definition rebase_dates :: "result_row list \<Rightarrow> info_row list" where
  "rebase_dates last_date_df =
     map (\<lambda>r. (fst r, case row_y r of Date d \<Rightarrow> Some d | _ \<Rightarrow> None)) last_date_df"

text \<open>
  Two \<open>QuarterlyTarget\<close> passes in sequence: the request dates are rebased through the
  \<open>date\<close> column at offset \<open>-1\<close>, then column \<open>col\<close> is read at offset \<open>0\<close>.
\<close>

definition quarterly_two_pass ::
    "(ticker \<Rightarrow> qrow list) \<Rightarrow> string \<Rightarrow> info_row list \<Rightarrow> error + result_row list" where
  "quarterly_two_pass data_loader col info_df =
     (case QuarterlyTarget_calculate data_loader ''date'' (- 1) info_df of
        Inl e \<Rightarrow> Inl e
      | Inr last_date_df \<Rightarrow> QuarterlyTarget_calculate data_loader col 0 (rebase_dates last_date_df))"

section \<open>The properties in the words of the specification\<close>

text \<open>
  \<open>quarter_at_offset col chron d s\<close>: in a quarterly series \<open>chron\<close> in chronological
  order, the value of column \<open>col\<close> at the quarter \<open>s\<close> quarters after the one reported on
  \<open>d\<close> (before it when \<open>s\<close> is negative), null when there is no such quarter.
\<close>

definition quarter_at_offset :: "string \<Rightarrow> qrow list \<Rightarrow> date \<Rightarrow> int \<Rightarrow> cell" where
  "quarter_at_offset col chron d s =
     (case first_index (map qdate chron) d of
        None \<Rightarrow> NaN
      | Some k \<Rightarrow>
         (if 0 \<le> int k + s \<and> int k + s < int (length chron)
          then getcol col (chron ! nat (int k + s)) else NaN))"

text \<open>
  The windows of a daily series \<open>series\<close>, whatever its order: the records dated \<open>d\<close> or
  later in ascending chronological order, the first \<open>n\<close> of them; and the records dated
  strictly before \<open>d\<close> in ascending chronological order, the last \<open>n\<close> of them.
\<close>

definition window_from :: "string \<Rightarrow> nat \<Rightarrow> 'v drow list \<Rightarrow> date \<Rightarrow> 'v list" where
  "window_from col n series d =
     map (\<lambda>r. dcols r col) (take n (sort_key ddate (filter (\<lambda>r. ddate r \<ge> d) series)))"

definition window_before :: "string \<Rightarrow> nat \<Rightarrow> 'v drow list \<Rightarrow> date \<Rightarrow> 'v list" where
  "window_before col n series d =
     (let past = sort_key ddate (filter (\<lambda>r. ddate r < d) series)
      in map (\<lambda>r. dcols r col) (drop (length past - n) past))"

section \<open>Example data\<close>

text \<open>
  A quarterly row with one numeric column \<open>revenue\<close>, and three companies' quarters in
  chronological order: report dates are day numbers.
\<close>

definition quarter :: "date \<Rightarrow> real \<Rightarrow> qrow" where
  "quarter d x = \<lparr>qdate = d, qcols = (\<lambda>c. if c = ''revenue'' then Num x else NaN)\<rparr>"

definition example_quarters :: "ticker \<Rightarrow> qrow list" where
  "example_quarters t =
     (if t = ''AAPL'' then [quarter 90 10, quarter 181 15, quarter 273 10, quarter 365 10]
      else if t = ''MSFT'' then [quarter 100 7, quarter 200 9]
      else if t = ''GOOG'' then [quarter 91 100, quarter 182 110, quarter 274 125]
      else [])"

text \<open>
  A daily row with one column \<open>price\<close>; the daily values 10, 20, 30, 40 on the days
  \<open>D = 100\<close> to \<open>D + 3\<close>, in chronological order; \<open>example_daily\<close> gives them to one
  company and two other days to every other company.
\<close>

definition day :: "date \<Rightarrow> real \<Rightarrow> real drow" where
  "day d x = \<lparr>ddate = d, dcols = (\<lambda>c. x)\<rparr>"

definition example_days :: "real drow list" where
  "example_days = [day 100 10, day 101 20, day 102 30, day 103 40]"

definition example_daily :: "ticker \<Rightarrow> real drow list" where
  "example_daily t = (if t = ''AAPL'' then example_days else [day 50 1, day 60 3])"

section \<open>The dispatch and merge shared by the two \<open>calculate\<close> methods\<close>

text \<open>
  \<open>QuarterlyTarget.calculate\<close> and \<open>DailyAggTarget.calculate\<close> have the same body around
  their own \<open>_single_ticker_target\<close>; \<open>dispatch_merge\<close> is that body, used to reason about
  both at once.
\<close>

definition dispatch_merge ::
    "(ticker \<times> date option list \<Rightarrow> error + result_row list) \<Rightarrow> info_row list
       \<Rightarrow> error + result_row list" where
  "dispatch_merge single info_df =
     (case map_err single (group_by_ticker info_df) of
        Inl e \<Rightarrow> Inl e
      | Inr result \<Rightarrow>
         (case pd_concat result of
            Inl e \<Rightarrow> Inl e
          | Inr result \<Rightarrow> Inr (merge_left info_df (drop_duplicates result))))"

section \<open>Lemmas on the loops and the pandas operations\<close>

lemma map_err_Inr:
  "(\<And>x. x \<in> set xs \<Longrightarrow> f x = Inr (g x)) \<Longrightarrow> map_err f xs = Inr (map g xs)"
  by (induction xs) auto

lemma map_err_Inl_obtain:
  "map_err f xs = Inl e \<Longrightarrow> \<exists>x\<in>set xs. f x = Inl e"
  by (induction xs) (auto split: sum.splits)

lemma map_err_fails:
  "x \<in> set xs \<Longrightarrow> f x = Inl e \<Longrightarrow> \<exists>e'. map_err f xs = Inl e'"
  by (induction xs) (auto split: sum.splits)

lemma map_err_Inr_D:
  "map_err f xs = Inr ys \<Longrightarrow> length ys = length xs \<and> (\<forall>i<length xs. f (xs ! i) = Inr (ys ! i))"
proof (induction xs arbitrary: ys)
  case Nil
  then show ?case by simp
next
  case (Cons x xs)
  then obtain y ys' where a: "f x = Inr y" "map_err f xs = Inr ys'" "ys = y # ys'"
    by (auto split: sum.splits)
  with Cons.IH[of ys'] show ?case
    by (auto simp: nth_Cons split: nat.splits)
qed

lemma first_index_None: "first_index xs d = None \<longleftrightarrow> d \<notin> set xs"
  by (induction xs) auto

lemma first_index_Some_D:
  "first_index xs d = Some i \<Longrightarrow> i < length xs \<and> xs ! i = d"
  by (induction xs arbitrary: i) (auto split: if_splits)

lemma first_index_distinct:
  "distinct xs \<Longrightarrow> i < length xs \<Longrightarrow> first_index xs (xs ! i) = Some i"
proof (induction xs arbitrary: i)
  case Nil
  then show ?case by simp
next
  case (Cons x xs)
  show ?case
  proof (cases i)
    case 0
    then show ?thesis by simp
  next
    case (Suc j)
    with Cons.prems have "xs ! j \<noteq> x" "first_index xs (xs ! j) = Some j"
      using Cons.IH[of j] by auto
    with Suc show ?thesis by simp
  qed
qed

lemma filter_drop_duplicates:
  "filter (\<lambda>r. row_key r = k) (drop_duplicates rs) = take 1 (filter (\<lambda>r. row_key r = k) rs)"
proof (induction rs rule: drop_duplicates.induct)
  case 1
  then show ?case by simp
next
  case (2 r rs)
  show ?case
  proof (cases "row_key r = k")
    case True
    have "filter (\<lambda>r'. row_key r' = k) (filter (\<lambda>r'. row_key r' \<noteq> row_key r) rs) = []"
      using True by (auto simp: filter_empty_conv)
    with 2 True show ?thesis by simp
  next
    case False
    have "filter (\<lambda>r'. row_key r' = k) (filter (\<lambda>r'. row_key r' \<noteq> row_key r) rs)
        = filter (\<lambda>r'. row_key r' = k) rs"
      using False by (auto intro: filter_cong)
    with 2 False show ?thesis by simp
  qed
qed

lemma merge_left_keys:
  "map row_key (merge_left info_df (drop_duplicates rs)) = info_df"
proof -
  have one: "map row_key (case filter (\<lambda>r. row_key r = k) (drop_duplicates rs) of
                 [] \<Rightarrow> [(fst k, snd k, NaN)]
               | ms \<Rightarrow> map (\<lambda>m. (fst k, snd k, row_y m)) ms) = [k]" for k
  proof (cases "filter (\<lambda>r. row_key r = k) rs")
    case Nil
    then show ?thesis by (simp add: filter_drop_duplicates) (simp add: row_key_def)
  next
    case (Cons m ms)
    have "row_key (fst k, snd k, row_y m) = k" by (simp add: row_key_def)
    with Cons show ?thesis by (simp add: filter_drop_duplicates)
  qed
  show ?thesis
    unfolding merge_left_def
    by (induction info_df) (simp_all add: one)
qed

lemma merge_left_values:
  assumes "\<And>r. r \<in> set rs \<Longrightarrow> row_y r = w (row_key r)"
      and "set info_df \<subseteq> row_key ` set rs"
  shows "merge_left info_df (drop_duplicates rs) = map (\<lambda>k. (fst k, snd k, w k)) info_df"
proof -
  have one: "(case filter (\<lambda>r. row_key r = k) (drop_duplicates rs) of
                 [] \<Rightarrow> [(fst k, snd k, NaN)]
               | ms \<Rightarrow> map (\<lambda>m. (fst k, snd k, row_y m)) ms) = [(fst k, snd k, w k)]"
    if "k \<in> row_key ` set rs" for k
  proof (cases "filter (\<lambda>r. row_key r = k) rs")
    case Nil
    with that show ?thesis by (auto simp: filter_empty_conv)
  next
    case (Cons m ms)
    then have "m \<in> set (filter (\<lambda>r. row_key r = k) rs)" by simp
    then have "m \<in> set rs" "row_key m = k" by auto
    with assms(1) have "row_y m = w k" by auto
    with Cons show ?thesis by (simp add: filter_drop_duplicates)
  qed
  show ?thesis
    unfolding merge_left_def using assms(2)
    by (induction info_df) (simp_all add: one)
qed

lemma QuarterlyTarget_calculate_dispatch:
  "QuarterlyTarget_calculate L col s info_df =
     dispatch_merge (QuarterlyTarget_single_ticker_target L col s) info_df"
  by (simp add: QuarterlyTarget_calculate_def dispatch_merge_def)

lemma DailyAggTarget_calculate_dispatch:
  "DailyAggTarget_calculate L col h foo info_df =
     dispatch_merge (DailyAggTarget_single_ticker_target L col h foo) info_df"
  by (simp add: DailyAggTarget_calculate_def dispatch_merge_def)

lemma group_by_ticker_Nil: "group_by_ticker info_df = [] \<longleftrightarrow> info_df = []"
proof
  assume "group_by_ticker info_df = []"
  then have "length (sort (remdups (map fst info_df))) = 0"
    unfolding group_by_ticker_def by simp
  then have "remdups (map fst info_df) = []" by simp
  then show "info_df = []" by simp
next
  assume "info_df = []"
  then show "group_by_ticker info_df = []" by (simp add: group_by_ticker_def)
qed

lemma group_by_ticker_mem:
  assumes "g \<in> set (group_by_ticker info_df)"
  shows "fst g \<in> fst ` set info_df \<and> snd g = map snd (filter (\<lambda>r. fst r = fst g) info_df)"
proof -
  from assms obtain t where "t \<in> fst ` set info_df"
      and "g = (t, map snd (filter (\<lambda>r. fst r = t) info_df))"
    unfolding group_by_ticker_def by auto
  then show ?thesis by simp
qed

lemma in_concatI: "x \<in> set ys \<Longrightarrow> ys \<in> set yss \<Longrightarrow> x \<in> set (concat yss)"
  by auto

lemma group_by_ticker_covers:
  assumes "(t, d) \<in> set info_df"
  shows "(t, map snd (filter (\<lambda>r. fst r = t) info_df)) \<in> set (group_by_ticker info_df)
     \<and> d \<in> set (map snd (filter (\<lambda>r. fst r = t) info_df))"
proof
  from assms have "t \<in> fst ` set info_df" by (rule image_eqI[rotated]) simp
  then have "t \<in> set (sort (remdups (map fst info_df)))" by simp
  then show "(t, map snd (filter (\<lambda>r. fst r = t) info_df)) \<in> set (group_by_ticker info_df)"
    unfolding group_by_ticker_def set_map by (rule imageI)
  from assms have "(t, d) \<in> set (filter (\<lambda>r. fst r = t) info_df)" by simp
  then have "snd (t, d) \<in> snd ` set (filter (\<lambda>r. fst r = t) info_df)" by (rule imageI)
  then show "d \<in> set (map snd (filter (\<lambda>r. fst r = t) info_df))" by simp
qed

lemma dispatch_merge_keys:
  assumes "dispatch_merge single info_df = Inr out"
  shows "map row_key out = info_df"
proof -
  from assms obtain result rs where "map_err single (group_by_ticker info_df) = Inr result"
      and "pd_concat result = Inr rs" and "out = merge_left info_df (drop_duplicates rs)"
    unfolding dispatch_merge_def by (simp split: sum.splits)
  then show ?thesis by (simp only: merge_left_keys)
qed

lemma dispatch_merge_ok:
  assumes ok: "\<And>t ds. (t, ds) \<in> set (group_by_ticker info_df) \<Longrightarrow>
                 single (t, ds) = Inr (map (\<lambda>d. (t, d, v t d)) ds)"
      and ne: "info_df \<noteq> []"
  shows "dispatch_merge single info_df = Inr (map (\<lambda>(t, d). (t, d, v t d)) info_df)"
proof -
  let ?g = "\<lambda>g. map (\<lambda>d. (fst g, d, v (fst g) d)) (snd g)"
  let ?rs = "concat (map ?g (group_by_ticker info_df))"
  have "map_err single (group_by_ticker info_df) = Inr (map ?g (group_by_ticker info_df))"
  proof (rule map_err_Inr)
    fix x assume "x \<in> set (group_by_ticker info_df)"
    then show "single x = Inr (?g x)" using ok[of "fst x" "snd x"] by simp
  qed
  moreover have "map ?g (group_by_ticker info_df) \<noteq> []"
    using ne by (simp add: group_by_ticker_Nil)
  ultimately have d: "dispatch_merge single info_df = Inr (merge_left info_df (drop_duplicates ?rs))"
    by (simp add: dispatch_merge_def pd_concat_def)
  have y: "row_y r = v (fst (row_key r)) (snd (row_key r))" if "r \<in> set ?rs" for r
  proof -
    from that obtain g d' where "r = (fst g, d', v (fst g) d')"
      unfolding set_concat set_map by auto
    then show ?thesis by (simp add: row_y_def row_key_def)
  qed
  have cover: "set info_df \<subseteq> row_key ` set ?rs"
  proof
    fix k assume k: "k \<in> set info_df"
    obtain t d' where kd: "k = (t, d')" by (cases k)
    from group_by_ticker_covers[of t d' info_df] k kd
    have g: "(t, map snd (filter (\<lambda>r. fst r = t) info_df)) \<in> set (group_by_ticker info_df)"
      and m: "d' \<in> set (map snd (filter (\<lambda>r. fst r = t) info_df))" by auto
    have "(t, d', v t d') \<in> set (?g (t, map snd (filter (\<lambda>r. fst r = t) info_df)))"
      using m by (simp add: image_iff)
    moreover have "?g (t, map snd (filter (\<lambda>r. fst r = t) info_df))
                     \<in> set (map ?g (group_by_ticker info_df))"
      using g unfolding set_map by (rule imageI)
    ultimately have "(t, d', v t d') \<in> set ?rs"
      by (rule in_concatI)
    then have "row_key (t, d', v t d') \<in> row_key ` set ?rs" by (rule imageI)
    then show "k \<in> row_key ` set ?rs" by (simp add: row_key_def kd)
  qed
  have "merge_left info_df (drop_duplicates ?rs)
      = map (\<lambda>k. (fst k, snd k, v (fst k) (snd k))) info_df"
  proof (rule merge_left_values[where w = "\<lambda>k. v (fst k) (snd k)"])
    fix r assume "r \<in> set ?rs"
    then show "row_y r = v (fst (row_key r)) (snd (row_key r))" by (rule y)
  next
    show "set info_df \<subseteq> row_key ` set ?rs" by (rule cover)
  qed
  also have "\<dots> = map (\<lambda>(t, d). (t, d, v t d)) info_df"
    by (simp add: case_prod_beta)
  finally show ?thesis using d by simp
qed

lemma dispatch_merge_fails:
  assumes "g \<in> set (group_by_ticker info_df)" and "single g = Inl e"
  shows "\<exists>e'. dispatch_merge single info_df = Inl e'"
  using map_err_fails[of g "group_by_ticker info_df" single e] assms
  by (auto simp: dispatch_merge_def)

lemma dispatch_merge_Nil: "dispatch_merge single [] = Inl ValueError"
  by (simp add: dispatch_merge_def group_by_ticker_def pd_concat_def)

lemma zip_map_self: "map (\<lambda>(v, d). (t, d, v)) (zip (map g ds) ds) = map (\<lambda>d. (t, d, g d)) ds"
  by (induction ds) auto

section \<open>Lemmas on \<open>QuarterlyTarget\<close>\<close>

lemma QuarterlyTarget_date_value_error:
  "QuarterlyTarget_date_value col s qd d = Inl e \<Longrightarrow> e = AssertionError"
  by (auto simp: QuarterlyTarget_date_value_def Let_def split: option.splits if_splits)

lemma QuarterlyTarget_single_ok:
  assumes "\<And>d. d \<in> set ds \<Longrightarrow> QuarterlyTarget_date_value col s (rev (L t)) d = Inr (v d)"
  shows "QuarterlyTarget_single_ticker_target L col s (t, ds) = Inr (map (\<lambda>d. (t, d, v d)) ds)"
proof -
  have "map_err (QuarterlyTarget_date_value col s (rev (L t))) ds = Inr (map v ds)"
    using assms by (rule map_err_Inr)
  then show ?thesis
    by (simp add: QuarterlyTarget_single_ticker_target_def zip_map_self)
qed

lemma QuarterlyTarget_single_error:
  assumes "QuarterlyTarget_single_ticker_target L col s g = Inl e"
  shows "e = AssertionError"
proof -
  from assms have "map_err (QuarterlyTarget_date_value col s (rev (L (fst g)))) (snd g) = Inl e"
    by (simp add: QuarterlyTarget_single_ticker_target_def Let_def split: sum.splits)
  then obtain d where "QuarterlyTarget_date_value col s (rev (L (fst g))) d = Inl e"
    using map_err_Inl_obtain by blast
  then show ?thesis by (rule QuarterlyTarget_date_value_error)
qed

lemma QuarterlyTarget_calculate_ok:
  assumes ne: "info_df \<noteq> []"
      and ok: "\<And>t d. (t, d) \<in> set info_df \<Longrightarrow>
                 QuarterlyTarget_date_value col s (rev (L t)) d = Inr (v t d)"
  shows "QuarterlyTarget_calculate L col s info_df = Inr (map (\<lambda>(t, d). (t, d, v t d)) info_df)"
  unfolding QuarterlyTarget_calculate_dispatch
proof (rule dispatch_merge_ok[OF _ ne])
  fix t ds assume g: "(t, ds) \<in> set (group_by_ticker info_df)"
  from group_by_ticker_mem[OF g] have ds: "ds = map snd (filter (\<lambda>r. fst r = t) info_df)"
    by simp
  show "QuarterlyTarget_single_ticker_target L col s (t, ds) = Inr (map (\<lambda>d. (t, d, v t d)) ds)"
  proof (rule QuarterlyTarget_single_ok)
    fix d assume "d \<in> set ds"
    then have "(t, d) \<in> set info_df" unfolding ds by auto
    then show "QuarterlyTarget_date_value col s (rev (L t)) d = Inr (v t d)" by (rule ok)
  qed
qed

lemma QuarterlyTarget_calculate_fails:
  assumes mem: "(t, d) \<in> set info_df"
      and bad: "QuarterlyTarget_date_value col s (rev (L t)) d = Inl e"
  shows "QuarterlyTarget_calculate L col s info_df = Inl AssertionError"
proof -
  let ?ds = "map snd (filter (\<lambda>r. fst r = t) info_df)"
  let ?single = "QuarterlyTarget_single_ticker_target L col s"
  from group_by_ticker_covers[OF mem]
  have g: "(t, ?ds) \<in> set (group_by_ticker info_df)" and d: "d \<in> set ?ds" by simp_all
  from map_err_fails[of d ?ds "QuarterlyTarget_date_value col s (rev (L t))" e] d bad
  obtain e1 where "map_err (QuarterlyTarget_date_value col s (rev (L t))) ?ds = Inl e1"
    by blast
  then have s1: "?single (t, ?ds) = Inl e1"
    by (simp add: QuarterlyTarget_single_ticker_target_def)
  from map_err_fails[of "(t, ?ds)" "group_by_ticker info_df" ?single e1] g s1
  obtain e2 where e2: "map_err ?single (group_by_ticker info_df) = Inl e2"
    by blast
  then obtain g' where "?single g' = Inl e2"
    using map_err_Inl_obtain by blast
  then have "e2 = AssertionError" by (rule QuarterlyTarget_single_error)
  with e2 show ?thesis by (simp add: QuarterlyTarget_calculate_def)
qed

lemma first_index_Some_ex:
  "d \<in> set xs \<Longrightarrow> \<exists>i. first_index xs d = Some i \<and> i < length xs \<and> xs ! i = d"
proof -
  assume "d \<in> set xs"
  then have "first_index xs d \<noteq> None" by (simp add: first_index_None)
  then obtain i where "first_index xs d = Some i" by blast
  with first_index_Some_D[of xs d i] show ?thesis by simp
qed

lemma QuarterlyTarget_date_value_matched:
  assumes "x \<in> qdate ` set qs"
  shows "QuarterlyTarget_date_value col s qs (Some x) =
           Inr (let idx = int (the (first_index (map qdate qs) x)) + s
                in if 0 \<le> idx \<and> idx < int (length qs) then getcol col (qs ! nat idx) else NaN)"
proof -
  from assms have "x \<in> set (map qdate qs)" by simp
  from first_index_Some_ex[OF this] obtain i where "first_index (map qdate qs) x = Some i"
    by blast
  then show ?thesis by (simp add: QuarterlyTarget_date_value_def Let_def)
qed

lemma QuarterlyTarget_date_value_chron:
  assumes "x \<in> qdate ` set qs"
  shows "QuarterlyTarget_date_value col s qs (Some x) = Inr (quarter_at_offset col qs x s)"
proof -
  from assms have "x \<in> set (map qdate qs)" by simp
  from first_index_Some_ex[OF this] obtain i where "first_index (map qdate qs) x = Some i"
    by blast
  then show ?thesis by (simp add: QuarterlyTarget_date_value_def quarter_at_offset_def Let_def)
qed

lemma QuarterlyTarget_date_value_rev:
  assumes dist: "distinct (map qdate chron)" and mem: "x \<in> qdate ` set chron"
  shows "QuarterlyTarget_date_value col s (rev chron) (Some x)
           = Inr (quarter_at_offset col chron x (- s))"
proof -
  let ?ds = "map qdate chron"
  let ?n = "length chron"
  from mem have "x \<in> set ?ds" by simp
  from first_index_Some_ex[OF this] obtain k
    where k: "first_index ?ds x = Some k" "k < ?n" "?ds ! k = x" by auto
  have len: "?n - Suc k < length (rev ?ds)" using k(2) by simp
  have "rev ?ds ! (?n - Suc k) = ?ds ! k"
    using k(2) by (simp add: rev_nth)
  with k(3) have at: "rev ?ds ! (?n - Suc k) = x" by simp
  have "distinct (rev ?ds)" using dist by simp
  from first_index_distinct[OF this len] at
  have fi: "first_index (map qdate (rev chron)) x = Some (?n - Suc k)"
    by (simp add: rev_map)
  define j where "j = int (?n - Suc k) + s"
  have jeq: "j = int ?n - 1 - (int k - s)"
    using k(2) by (simp add: j_def of_nat_diff)
  have dv: "QuarterlyTarget_date_value col s (rev chron) (Some x)
          = Inr (if 0 \<le> j \<and> j < int ?n then getcol col (rev chron ! nat j) else NaN)"
    using fi by (simp add: QuarterlyTarget_date_value_def Let_def j_def)
  have qa: "quarter_at_offset col chron x (- s)
          = (if 0 \<le> int k - s \<and> int k - s < int ?n
             then getcol col (chron ! nat (int k - s)) else NaN)"
    using k(1) by (simp add: quarter_at_offset_def)
  show ?thesis
  proof (cases "0 \<le> int k - s \<and> int k - s < int ?n")
    case True
    then have r: "0 \<le> j \<and> j < int ?n" using jeq by auto
    then have "nat j < ?n" by linarith
    then have "rev chron ! nat j = chron ! (?n - Suc (nat j))"
      by (rule rev_nth)
    also have "?n - Suc (nat j) = nat (int k - s)"
      using True jeq by linarith
    finally have "rev chron ! nat j = chron ! nat (int k - s)" .
    with True r show ?thesis unfolding dv qa by auto
  next
    case False
    then have "\<not> (0 \<le> j \<and> j < int ?n)" using jeq by auto
    with False show ?thesis unfolding dv qa by auto
  qed
qed

lemma example_quarters_AAPL:
  "example_quarters ''AAPL'' = [quarter 90 10, quarter 181 15, quarter 273 10, quarter 365 10]"
  by (simp add: example_quarters_def)

lemma example_quarters_MSFT: "example_quarters ''MSFT'' = [quarter 100 7, quarter 200 9]"
  by (simp add: example_quarters_def)

lemma example_quarters_GOOG:
  "example_quarters ''GOOG'' = [quarter 91 100, quarter 182 110, quarter 274 125]"
  by (simp add: example_quarters_def)

lemma previous_quarter_rebased:
  assumes dist: "distinct (map qdate qs)"
      and mem: "x \<in> qdate ` set qs"
      and nf: "x \<noteq> qdate (hd qs)"
  shows "\<exists>p. quarter_at_offset ''date'' qs x (- 1) = Date p \<and> p \<in> qdate ` set qs
             \<and> quarter_at_offset col qs p 0 = quarter_at_offset col qs x (- 1)"
proof -
  let ?ds = "map qdate qs"
  from mem have "x \<in> set ?ds" by simp
  from first_index_Some_ex[OF this] obtain k
    where k: "first_index ?ds x = Some k" "k < length qs" "?ds ! k = x" by auto
  have "k \<noteq> 0"
  proof
    assume "k = 0"
    with k(2,3) have "qdate (hd qs) = x" by (simp add: hd_conv_nth)
    with nf show False by simp
  qed
  then obtain j where j: "k = Suc j" by (cases k) auto
  let ?p = "qdate (qs ! j)"
  have jl: "j < length ?ds" using k(2) j by simp
  have r: "0 \<le> int k + (- 1)" "int k + (- 1) < int (length qs)" "nat (int k + (- 1)) = j"
    using k(2) j by simp_all
  have a: "quarter_at_offset c qs x (- 1) = getcol c (qs ! j)" for c
    using k(1) r by (simp add: quarter_at_offset_def)
  have "first_index ?ds (?ds ! j) = Some j" using dist jl by (rule first_index_distinct)
  then have fj: "first_index ?ds ?p = Some j" using jl by simp
  have b: "quarter_at_offset col qs ?p 0 = getcol col (qs ! j)"
    using fj jl by (simp add: quarter_at_offset_def)
  have "quarter_at_offset ''date'' qs x (- 1) = Date ?p"
    using a[of "''date''"] by (simp add: getcol_def)
  moreover have "?p \<in> qdate ` set qs" using jl by simp
  moreover have "quarter_at_offset col qs ?p 0 = quarter_at_offset col qs x (- 1)"
    using a[of col] b by simp
  ultimately show ?thesis by blast
qed

section \<open>Lemmas on \<open>DailyAggTarget\<close>\<close>

lemma DailyAggTarget_single_ok:
  assumes "\<And>d. d \<in> set ds \<Longrightarrow>
             (case L t of None \<Rightarrow> Inr NaN
              | Some daily \<Rightarrow> DailyAggTarget_date_value col h foo (rev daily) d) = Inr (v d)"
  shows "DailyAggTarget_single_ticker_target L col h foo (t, ds) = Inr (map (\<lambda>d. (t, d, v d)) ds)"
proof (cases "L t")
  case None
  with assms have "\<And>d. d \<in> set ds \<Longrightarrow> v d = NaN" by simp
  then have "map (\<lambda>d. (t, d, NaN)) ds = map (\<lambda>d. (t, d, v d)) ds"
    by (intro map_cong) simp_all
  with None show ?thesis by (simp add: DailyAggTarget_single_ticker_target_def)
next
  case (Some daily)
  with assms have "\<And>d. d \<in> set ds \<Longrightarrow>
                      DailyAggTarget_date_value col h foo (rev daily) d = Inr (v d)"
    by simp
  then have "map_err (DailyAggTarget_date_value col h foo (rev daily)) ds = Inr (map v ds)"
    by (rule map_err_Inr)
  with Some show ?thesis
    by (simp add: DailyAggTarget_single_ticker_target_def zip_map_self)
qed

lemma DailyAggTarget_calculate_ok:
  assumes ne: "info_df \<noteq> []"
      and ok: "\<And>t d. (t, d) \<in> set info_df \<Longrightarrow>
                 (case L t of None \<Rightarrow> Inr NaN
                  | Some daily \<Rightarrow> DailyAggTarget_date_value col h foo (rev daily) d)
                 = Inr (v t d)"
  shows "DailyAggTarget_calculate L col h foo info_df = Inr (map (\<lambda>(t, d). (t, d, v t d)) info_df)"
  unfolding DailyAggTarget_calculate_dispatch
proof (rule dispatch_merge_ok[OF _ ne])
  fix t ds assume g: "(t, ds) \<in> set (group_by_ticker info_df)"
  from group_by_ticker_mem[OF g] have ds: "ds = map snd (filter (\<lambda>r. fst r = t) info_df)"
    by simp
  show "DailyAggTarget_single_ticker_target L col h foo (t, ds) = Inr (map (\<lambda>d. (t, d, v t d)) ds)"
  proof (rule DailyAggTarget_single_ok)
    fix d assume "d \<in> set ds"
    then have "(t, d) \<in> set info_df" unfolding ds by auto
    then show "(case L t of None \<Rightarrow> Inr NaN
               | Some daily \<Rightarrow> DailyAggTarget_date_value col h foo (rev daily) d)
              = Inr (v t d)"
      by (rule ok)
  qed
qed

lemma sort_key_filter_sorted:
  assumes "sorted_wrt (<) (map ddate chron)"
  shows "sort_key ddate (filter P chron) = filter P chron"
proof -
  from assms have "sorted (map ddate chron)" by (simp add: strict_sorted_iff)
  then have "sorted (map ddate (filter P chron))" by (rule sorted_filter)
  then show ?thesis by (rule sort_key_id_if_sorted)
qed

lemma series_from_descending_supply:
  assumes "sorted_wrt (<) (map ddate chron)" and "0 \<le> h"
  shows "DailyAggTarget_series col h (rev (rev chron)) d = window_from col (nat h) chron d"
  using assms
  by (simp add: DailyAggTarget_series_def window_from_def
                sort_key_filter_sorted take_map)

lemma series_from_ascending_supply:
  assumes "sorted_wrt (<) (map ddate chron)" and "0 \<le> h"
  shows "DailyAggTarget_series col h (rev chron) d
           = take (nat h) (rev (window_from col (length chron) chron d))"
proof -
  have "length (filter (\<lambda>r. d \<le> ddate r) chron) \<le> length chron" by simp
  then have "take (length chron) (filter (\<lambda>r. d \<le> ddate r) chron) = filter (\<lambda>r. d \<le> ddate r) chron"
    by simp
  with assms show ?thesis
    by (simp add: DailyAggTarget_series_def window_from_def
                  sort_key_filter_sorted rev_filter rev_map)
qed

lemma series_before_descending_supply:
  assumes "sorted_wrt (<) (map ddate chron)" and "h < 0"
  shows "DailyAggTarget_series col h (rev (rev chron)) d
           = window_before col (nat (- h)) chron d"
proof -
  let ?past = "filter (\<lambda>r. ddate r < d) chron"
  have "nat (int (length ?past) + h) = length ?past - nat (- h)" using assms(2) by linarith
  with assms show ?thesis
    by (simp add: DailyAggTarget_series_def window_before_def
                  sort_key_filter_sorted drop_map Let_def)
qed

lemma take_length_diff: "take (length xs - (length xs - m)) xs = take m xs"
proof (cases "m \<le> length xs")
  case True
  then show ?thesis by simp
next
  case False
  then show ?thesis by simp
qed

lemma series_before_ascending_supply:
  assumes "sorted_wrt (<) (map ddate chron)" and "h < 0"
  shows "DailyAggTarget_series col h (rev chron) d
           = rev (take (nat (- h)) (window_before col (length chron) chron d))"
proof -
  let ?past = "filter (\<lambda>r. ddate r < d) chron"
  have a: "nat (int (length ?past) + h) = length ?past - nat (- h)" using assms(2) by linarith
  have "length ?past \<le> length chron" by simp
  then have b: "length ?past - length chron = 0" by simp
  have "drop (length ?past - nat (- h)) (map (\<lambda>r. dcols r col) (rev ?past))
      = rev (take (nat (- h)) (map (\<lambda>r. dcols r col) ?past))"
    using take_length_diff[of "map (\<lambda>r. dcols r col) ?past" "nat (- h)"]
    by (simp add: rev_map[symmetric] drop_rev)
  moreover have "length (filter (\<lambda>r. ddate r < d) (rev chron)) = length ?past"
    by (simp add: rev_filter[symmetric])
  ultimately show ?thesis using assms a b
    by (simp add: DailyAggTarget_series_def window_before_def
                  sort_key_filter_sorted rev_filter Let_def)
qed

lemma example_daily_AAPL:
  "example_daily ''AAPL'' = [day 100 10, day 101 20, day 102 30, day 103 40]"
  by (simp add: example_daily_def example_days_def)

lemma example_daily_MSFT: "example_daily ''MSFT'' = [day 50 1, day 60 3]"
  by (simp add: example_daily_def)

lemma np_mean_total: "\<forall>xs. np_mean xs = Inr (np_mean_value xs)"
  by (simp add: np_mean_def)

text \<open>
  A null request date for an entity that has daily data makes the whole call raise; for an
  entity without daily history the loop is not entered and nothing raises.
\<close>

lemma DailyAggTarget_null_date_raises:
  "DailyAggTarget_calculate (\<lambda>t. if t = ''AAPL'' then Some (rev example_days) else None)
     ''price'' 3 np_mean [(''MSFT'', Some 100), (''AAPL'', None)] = Inl TypeError"
  by (simp add: DailyAggTarget_calculate_def group_by_ticker_def
        DailyAggTarget_single_ticker_target_def DailyAggTarget_date_value_def Let_def)

section \<open>Lemmas on \<open>QuarterlyBinDiffTarget\<close>\<close>

lemma length_set_y: "length ys = length df \<Longrightarrow> length (set_y df ys) = length df"
  by (simp add: set_y_def)

lemma set_y_nth:
  "length ys = length df \<Longrightarrow> k < length df \<Longrightarrow>
     row_key (set_y df ys ! k) = row_key (df ! k) \<and> row_y (set_y df ys ! k) = ys ! k"
  by (simp add: set_y_def row_key_def row_y_def)

lemma QuarterlyBinDiffTarget_calculate_Inr:
  assumes "QuarterlyDiffTarget_calculate L col False info_df = Inr diff_df"
  shows "QuarterlyBinDiffTarget_calculate L col info_df
           = Inr (set_y diff_df (map binarize (map row_y diff_df)))"
  using assms by (simp add: QuarterlyBinDiffTarget_calculate_def)

lemma example_diff:
  "QuarterlyDiffTarget_calculate (\<lambda>t. rev (example_quarters t)) ''revenue'' False
     [(''AAPL'', Some 181), (''AAPL'', Some 273), (''AAPL'', Some 90), (''AAPL'', Some 365)]
   = Inr [(''AAPL'', Some 181, Num 5), (''AAPL'', Some 273, Num (- 5)),
          (''AAPL'', Some 90, NaN), (''AAPL'', Some 365, Num 0)]"
  by (simp add: QuarterlyDiffTarget_calculate_def QuarterlyTarget_calculate_def
        group_by_ticker_def QuarterlyTarget_single_ticker_target_def
        QuarterlyTarget_date_value_def pd_concat_def merge_left_def row_key_def row_y_def
        getcol_def set_y_def example_quarters_AAPL quarter_def Let_def)

section \<open>The claims\<close>

text \<open>
  Claim C4. When the request table has a row (entity, date) whose date is not one of the
  report dates of that entity's quarterly series (the null date included),
  \<open>QuarterlyTarget.calculate\<close> raises the \<open>AssertionError\<close> of the exact-match check: the
  call returns no table at all, whatever the other rows are.
\<close>

theorem QuarterlyTarget_calculate_unmatched_date_fails:
  assumes "(t, d) \<in> set info_df"
      and "d \<notin> Some ` qdate ` set (data_loader t)"
  shows "QuarterlyTarget_calculate data_loader col quarter_shift info_df = Inl AssertionError"
proof -
  have "QuarterlyTarget_date_value col quarter_shift (rev (data_loader t)) d = Inl AssertionError"
  proof (cases d)
    case None
    then show ?thesis by (simp add: QuarterlyTarget_date_value_def)
  next
    case (Some x)
    with assms(2) have "x \<notin> set (map qdate (rev (data_loader t)))" by auto
    then have "first_index (map qdate (rev (data_loader t))) x = None"
      by (simp add: first_index_None)
    with Some show ?thesis by (simp add: QuarterlyTarget_date_value_def)
  qed
  with assms(1) show ?thesis by (rule QuarterlyTarget_calculate_fails)
qed

text \<open>
  The theorem at a request table of three rows, the second of which asks for a day that is
  no report date of its company.
\<close>

theorem QuarterlyTarget_calculate_unmatched_date_fails_witness:
  "QuarterlyTarget_calculate example_quarters ''revenue'' 0
     [(''AAPL'', Some 181), (''MSFT'', Some 150), (''AAPL'', Some 90)] = Inl AssertionError"
proof -
  have m: "(''MSFT'', Some (150::int))
              \<in> set [(''AAPL'', Some 181), (''MSFT'', Some 150), (''AAPL'', Some 90)]"
    by simp
  have a: "Some 150 \<notin> Some ` qdate ` set (example_quarters ''MSFT'')"
    by (simp add: example_quarters_def quarter_def)
  show ?thesis
    by (rule QuarterlyTarget_calculate_unmatched_date_fails
              [where data_loader = example_quarters and t = "''MSFT''", OF m a])
qed

text \<open>
  Claim C8. For a request table all of whose dates match a report date of their entity,
  \<open>QuarterlyTarget.calculate\<close> raises nothing; the value of a row is read at the index of
  the exact match in the reversed series plus the offset when that index lies in
  \<open>[0, length)\<close>, and is null otherwise. In particular an offset whose magnitude is at least
  the length of every requested entity's series gives null on every row.
\<close>

theorem QuarterlyTarget_offset_out_of_range_is_null:
  assumes ne: "info_df \<noteq> []"
      and matched: "\<forall>(t, d)\<in>set info_df. d \<in> Some ` qdate ` set (data_loader t)"
  shows "QuarterlyTarget_calculate data_loader col quarter_shift info_df =
           Inr (map (\<lambda>(t, d).
                  (t, d,
                   let idx = int (the (first_index (map qdate (rev (data_loader t))) (the d)))
                               + quarter_shift
                   in if 0 \<le> idx \<and> idx < int (length (data_loader t))
                      then getcol col (rev (data_loader t) ! nat idx) else NaN)) info_df)
       \<and> ((\<forall>t\<in>fst ` set info_df. int (length (data_loader t)) \<le> \<bar>quarter_shift\<bar>) \<longrightarrow>
            QuarterlyTarget_calculate data_loader col quarter_shift info_df =
              Inr (map (\<lambda>(t, d). (t, d, NaN)) info_df))"
proof -
  let ?v = "\<lambda>t d. let idx = int (the (first_index (map qdate (rev (data_loader t))) (the d)))
                               + quarter_shift
                   in if 0 \<le> idx \<and> idx < int (length (data_loader t))
                      then getcol col (rev (data_loader t) ! nat idx) else NaN"
  have first: "QuarterlyTarget_calculate data_loader col quarter_shift info_df =
                 Inr (map (\<lambda>(t, d). (t, d, ?v t d)) info_df)"
  proof (rule QuarterlyTarget_calculate_ok[OF ne])
    fix t d assume "(t, d) \<in> set info_df"
    with matched obtain x where x: "d = Some x" "x \<in> qdate ` set (rev (data_loader t))"
      by auto
    from QuarterlyTarget_date_value_matched[OF x(2), of col quarter_shift] x(1)
    show "QuarterlyTarget_date_value col quarter_shift (rev (data_loader t)) d = Inr (?v t d)"
      by simp
  qed
  have second: "map (\<lambda>(t, d). (t, d, ?v t d)) info_df = map (\<lambda>(t, d). (t, d, NaN)) info_df"
    if big: "\<forall>t\<in>fst ` set info_df. int (length (data_loader t)) \<le> \<bar>quarter_shift\<bar>"
  proof (rule map_cong[OF refl])
    fix r assume r: "r \<in> set info_df"
    obtain t d where td: "r = (t, d)" by (cases r)
    with r matched obtain x where x: "d = Some x" "x \<in> set (map qdate (rev (data_loader t)))"
      by auto
    from first_index_Some_ex[OF x(2)] obtain i
      where i: "first_index (map qdate (rev (data_loader t))) x = Some i"
               "i < length (data_loader t)" by auto
    from r td have "t \<in> fst ` set info_df" by force
    with big have "int (length (data_loader t)) \<le> \<bar>quarter_shift\<bar>" by blast
    with i(2) have "\<not> (0 \<le> int i + quarter_shift
                       \<and> int i + quarter_shift < int (length (data_loader t)))"
      by linarith
    with i(1) x(1) have "?v t d = NaN" by (auto simp: Let_def)
    with td show "(case r of (t, d) \<Rightarrow> (t, d, ?v t d)) = (case r of (t, d) \<Rightarrow> (t, d, NaN))"
      by simp
  qed
  from first second show ?thesis by simp
qed

text \<open>
  The theorem at offset \<open>2\<close>, where one row is in range and two walk off the history, and
  at offset \<open>-1000\<close>.
\<close>

theorem QuarterlyTarget_offset_out_of_range_is_null_witness:
  "QuarterlyTarget_calculate example_quarters ''revenue'' 2
     [(''AAPL'', Some 181), (''AAPL'', Some 273), (''MSFT'', Some 200)]
   = Inr [(''AAPL'', Some 181, NaN), (''AAPL'', Some 273, Num 10), (''MSFT'', Some 200, NaN)]
   \<and> QuarterlyTarget_calculate example_quarters ''revenue'' (- 1000)
     [(''AAPL'', Some 181), (''AAPL'', Some 273), (''MSFT'', Some 200)]
   = Inr [(''AAPL'', Some 181, NaN), (''AAPL'', Some 273, NaN), (''MSFT'', Some 200, NaN)]"
proof -
  let ?info = "[(''AAPL'', Some (181::int)), (''AAPL'', Some 273), (''MSFT'', Some 200)]"
  have ne: "?info \<noteq> []" by simp
  have m: "\<forall>(t, d)\<in>set ?info. d \<in> Some ` qdate ` set (example_quarters t)"
    by (simp add: example_quarters_AAPL example_quarters_MSFT quarter_def)
  have big: "\<forall>t\<in>fst ` set ?info. int (length (example_quarters t)) \<le> \<bar>- 1000\<bar>"
    by (simp add: example_quarters_AAPL example_quarters_MSFT)
  from QuarterlyTarget_offset_out_of_range_is_null[OF ne m, of "''revenue''" 2]
  have a: "QuarterlyTarget_calculate example_quarters ''revenue'' 2 ?info
           = Inr [(''AAPL'', Some 181, NaN), (''AAPL'', Some 273, Num 10), (''MSFT'', Some 200, NaN)]"
    by (simp add: example_quarters_AAPL example_quarters_MSFT quarter_def getcol_def)
  from QuarterlyTarget_offset_out_of_range_is_null
         [OF ne m, of "''revenue''" "- 1000", THEN conjunct2, THEN mp, OF big]
  have b: "QuarterlyTarget_calculate example_quarters ''revenue'' (- 1000) ?info
           = Inr [(''AAPL'', Some 181, NaN), (''AAPL'', Some 273, NaN), (''MSFT'', Some 200, NaN)]"
    by simp
  from a b show ?thesis by simp
qed

text \<open>
  Claim C1, as the code has it. \<open>QuarterlyTarget\<close> reverses the series it is given and adds
  the offset to the index of the matched quarter. Let \<open>chron t\<close> be the quarters of entity
  \<open>t\<close> in chronological order, with distinct report dates, and let every request date be
  a report date of its entity. When the provider supplies the series newest first (the
  reverse of \<open>chron\<close>), the reversal makes it chronological and offset \<open>s\<close> reads the quarter
  \<open>s\<close> places later: \<open>-1\<close> the previous quarter, \<open>0\<close> the matched one, \<open>+1\<close> the next, null
  when there is no such quarter. When the provider supplies the series oldest first, the
  reversal makes it descending and the directions are swapped: offset \<open>s\<close> reads the quarter
  \<open>s\<close> places earlier, so \<open>-1\<close> is the chronologically next quarter and \<open>+1\<close> the previous.
\<close>

theorem QuarterlyTarget_shift_direction:
  assumes ne: "info_df \<noteq> []"
      and chron: "\<forall>(t, d)\<in>set info_df.
                    sorted_wrt (<) (map qdate (chron t)) \<and> d \<in> Some ` qdate ` set (chron t)"
  shows "QuarterlyTarget_calculate (\<lambda>t. rev (chron t)) col s info_df =
           Inr (map (\<lambda>(t, d). (t, d, quarter_at_offset col (chron t) (the d) s)) info_df)
       \<and> QuarterlyTarget_calculate chron col s info_df =
           Inr (map (\<lambda>(t, d). (t, d, quarter_at_offset col (chron t) (the d) (- s))) info_df)"
proof
  show "QuarterlyTarget_calculate (\<lambda>t. rev (chron t)) col s info_df =
           Inr (map (\<lambda>(t, d). (t, d, quarter_at_offset col (chron t) (the d) s)) info_df)"
  proof (rule QuarterlyTarget_calculate_ok[OF ne])
    fix t d assume "(t, d) \<in> set info_df"
    with chron obtain x where x: "d = Some x" "x \<in> qdate ` set (chron t)" by auto
    from QuarterlyTarget_date_value_chron[OF x(2), of col s] x(1)
    show "QuarterlyTarget_date_value col s (rev (rev (chron t))) d
            = Inr (quarter_at_offset col (chron t) (the d) s)"
      by simp
  qed
  show "QuarterlyTarget_calculate chron col s info_df =
           Inr (map (\<lambda>(t, d). (t, d, quarter_at_offset col (chron t) (the d) (- s))) info_df)"
  proof (rule QuarterlyTarget_calculate_ok[OF ne])
    fix t d assume "(t, d) \<in> set info_df"
    with chron obtain x where x: "d = Some x" "x \<in> qdate ` set (chron t)"
      and srt: "sorted_wrt (<) (map qdate (chron t))" by auto
    from srt have "distinct (map qdate (chron t))" by (simp add: strict_sorted_iff)
    from QuarterlyTarget_date_value_rev[OF this x(2), of col s] x(1)
    show "QuarterlyTarget_date_value col s (rev (chron t)) d
            = Inr (quarter_at_offset col (chron t) (the d) (- s))"
      by simp
  qed
qed

text \<open>
  The theorem at offset \<open>-1\<close> on three request rows: with the series supplied newest first
  the values are those of the previous quarters, with the series supplied oldest first those
  of the next quarters.
\<close>

theorem QuarterlyTarget_shift_direction_witness:
  "QuarterlyTarget_calculate (\<lambda>t. rev (example_quarters t)) ''revenue'' (- 1)
     [(''GOOG'', Some 182), (''MSFT'', Some 100), (''GOOG'', Some 274)]
     = Inr [(''GOOG'', Some 182, Num 100), (''MSFT'', Some 100, NaN), (''GOOG'', Some 274, Num 110)]
   \<and> QuarterlyTarget_calculate example_quarters ''revenue'' (- 1)
     [(''GOOG'', Some 182), (''MSFT'', Some 100), (''GOOG'', Some 274)]
     = Inr [(''GOOG'', Some 182, Num 125), (''MSFT'', Some 100, Num 9), (''GOOG'', Some 274, NaN)]"
proof -
  let ?info = "[(''GOOG'', Some (182::int)), (''MSFT'', Some 100), (''GOOG'', Some 274)]"
  have ne: "?info \<noteq> []" by simp
  have c: "\<forall>(t, d)\<in>set ?info. sorted_wrt (<) (map qdate (example_quarters t))
                                \<and> d \<in> Some ` qdate ` set (example_quarters t)"
    by (simp add: example_quarters_GOOG example_quarters_MSFT quarter_def)
  from QuarterlyTarget_shift_direction[OF ne c, of "''revenue''" "- 1"]
  show ?thesis
    by (simp add: quarter_at_offset_def example_quarters_GOOG example_quarters_MSFT
                  quarter_def getcol_def)
qed

text \<open>
  Claim C1 as stated fails: a series supplied in ascending date order, with report dates
  91, 182, 274 and revenues 100, 110, 125, requested at the report date 182. Offset \<open>-1\<close>
  returns 125, the value of the chronologically next quarter, not 100; offset \<open>+1\<close> returns
  100, the value of the previous quarter.
\<close>

theorem QuarterlyTarget_previous_quarter_counterexample:
  "sorted_wrt (<) (map qdate (example_quarters ''GOOG''))
   \<and> map qdate (example_quarters ''GOOG'') = [91, 182, 274]
   \<and> map (getcol ''revenue'') (example_quarters ''GOOG'') = [Num 100, Num 110, Num 125]
   \<and> QuarterlyTarget_calculate example_quarters ''revenue'' (- 1) [(''GOOG'', Some 182)]
       = Inr [(''GOOG'', Some 182, Num 125)]
   \<and> QuarterlyTarget_calculate example_quarters ''revenue'' 1 [(''GOOG'', Some 182)]
       = Inr [(''GOOG'', Some 182, Num 100)]"
  by (simp add: QuarterlyTarget_calculate_def group_by_ticker_def
        QuarterlyTarget_single_ticker_target_def QuarterlyTarget_date_value_def
        pd_concat_def merge_left_def row_key_def row_y_def getcol_def
        example_quarters_GOOG quarter_def)

text \<open>
  Claim C2, as the code has it. \<open>DailyAggTarget\<close> reverses the daily series it is given,
  keeps the records dated on or after the request date in the order they then have, and
  aggregates the first \<open>horizon\<close> values. Let \<open>chron t\<close> be the daily records of entity \<open>t\<close>
  in chronological order with distinct dates, \<open>horizon\<close> be non-negative, no request date be
  null, and the aggregation function \<open>foo\<close> raise nothing. When the provider supplies the
  series newest first, the window is the first \<open>horizon\<close> records dated on or after the
  request date in ascending order, the ones nearest the request date. When the provider
  supplies the series oldest first, the window is the \<open>horizon\<close> latest of those records,
  newest first.
\<close>

theorem DailyAggTarget_forward_window:
  assumes ne: "info_df \<noteq> []"
      and h: "0 \<le> horizon"
      and chron: "\<forall>(t, d)\<in>set info_df. sorted_wrt (<) (map ddate (chron t)) \<and> d \<noteq> None"
      and foo: "\<forall>xs. foo xs = Inr (agg xs)"
  shows "DailyAggTarget_calculate (\<lambda>t. Some (rev (chron t))) col horizon foo info_df =
           Inr (map (\<lambda>(t, d). (t, d, agg (window_from col (nat horizon) (chron t) (the d))))
                    info_df)
       \<and> DailyAggTarget_calculate (\<lambda>t. Some (chron t)) col horizon foo info_df =
           Inr (map (\<lambda>(t, d). (t, d, agg (take (nat horizon)
                      (rev (window_from col (length (chron t)) (chron t) (the d)))))) info_df)"
proof
  show "DailyAggTarget_calculate (\<lambda>t. Some (rev (chron t))) col horizon foo info_df =
           Inr (map (\<lambda>(t, d). (t, d, agg (window_from col (nat horizon) (chron t) (the d))))
                    info_df)"
  proof (rule DailyAggTarget_calculate_ok[OF ne])
    fix t d assume "(t, d) \<in> set info_df"
    with chron obtain x where x: "d = Some x" and s: "sorted_wrt (<) (map ddate (chron t))"
      by auto
    from series_from_descending_supply[OF s h, of col x] x foo
    show "(case Some (rev (chron t)) of None \<Rightarrow> Inr NaN
           | Some daily \<Rightarrow> DailyAggTarget_date_value col horizon foo (rev daily) d)
          = Inr (agg (window_from col (nat horizon) (chron t) (the d)))"
      by (simp add: DailyAggTarget_date_value_def)
  qed
  show "DailyAggTarget_calculate (\<lambda>t. Some (chron t)) col horizon foo info_df =
           Inr (map (\<lambda>(t, d). (t, d, agg (take (nat horizon)
                      (rev (window_from col (length (chron t)) (chron t) (the d)))))) info_df)"
  proof (rule DailyAggTarget_calculate_ok[OF ne])
    fix t d assume "(t, d) \<in> set info_df"
    with chron obtain x where x: "d = Some x" and s: "sorted_wrt (<) (map ddate (chron t))"
      by auto
    from series_from_ascending_supply[OF s h, of col x] x foo
    show "(case Some (chron t) of None \<Rightarrow> Inr NaN
           | Some daily \<Rightarrow> DailyAggTarget_date_value col horizon foo (rev daily) d)
          = Inr (agg (take (nat horizon)
                   (rev (window_from col (length (chron t)) (chron t) (the d)))))"
      by (simp add: DailyAggTarget_date_value_def)
  qed
qed

text \<open>
  The theorem at horizon \<open>3\<close> with \<open>np.mean\<close>: the values 10, 20, 30, 40 on the days
  \<open>D\<close> to \<open>D + 3\<close>, requested at \<open>D\<close>, give \<open>mean(10, 20, 30) = 20\<close> when supplied
  newest first and \<open>mean(40, 30, 20) = 30\<close> when supplied oldest first.
\<close>

theorem DailyAggTarget_forward_window_witness:
  "DailyAggTarget_calculate (\<lambda>t. Some (rev (example_daily t))) ''price'' 3 np_mean
     [(''AAPL'', Some 100), (''MSFT'', Some 55)]
     = Inr [(''AAPL'', Some 100, Num 20), (''MSFT'', Some 55, Num 3)]
   \<and> DailyAggTarget_calculate (\<lambda>t. Some (example_daily t)) ''price'' 3 np_mean
     [(''AAPL'', Some 100), (''MSFT'', Some 55)]
     = Inr [(''AAPL'', Some 100, Num 30), (''MSFT'', Some 55, Num 3)]"
proof -
  let ?info = "[(''AAPL'', Some (100::int)), (''MSFT'', Some 55)]"
  have ne: "?info \<noteq> []" by simp
  have h: "(0::int) \<le> 3" by simp
  have c: "\<forall>(t, d)\<in>set ?info. sorted_wrt (<) (map ddate (example_daily t)) \<and> d \<noteq> None"
    by (simp add: example_daily_AAPL example_daily_MSFT day_def)
  from DailyAggTarget_forward_window[OF ne h c np_mean_total, of "''price''"]
  show ?thesis
    by (simp add: window_from_def example_daily_AAPL example_daily_MSFT day_def
                  np_mean_value_def)
qed

text \<open>
  Claim C2 as stated fails: the series of the claim's own example, supplied in ascending
  date order and requested at \<open>D = 100\<close> with horizon \<open>3\<close>, gives 30, not 20.
\<close>

theorem DailyAggTarget_forward_window_counterexample:
  "map ddate example_days = [100, 101, 102, 103]
   \<and> map (\<lambda>r. dcols r ''price'') example_days = [10, 20, 30, 40]
   \<and> DailyAggTarget_calculate (\<lambda>t. Some example_days) ''price'' 3 np_mean [(''AAPL'', Some 100)]
       = Inr [(''AAPL'', Some 100, Num 30)]"
  by (simp add: DailyAggTarget_calculate_def group_by_ticker_def
        DailyAggTarget_single_ticker_target_def DailyAggTarget_date_value_def DailyAggTarget_series_def
        pd_concat_def merge_left_def row_key_def row_y_def
        example_days_def day_def np_mean_def np_mean_value_def)

text \<open>
  Claim C3, as the code has it. For a negative \<open>horizon\<close>, \<open>DailyAggTarget\<close> keeps the records
  dated strictly before the request date, in the order of the reversed series, and
  aggregates the last \<open>|horizon|\<close> values. Under the assumptions of the previous theorem:
  when the provider supplies the series newest first, the window is the last \<open>|horizon|\<close>
  records strictly before the request date in ascending order, the most recent ones; when
  the provider supplies the series oldest first, it is the \<open>|horizon|\<close> oldest records
  strictly before the request date, newest first.
\<close>

theorem DailyAggTarget_backward_window:
  assumes ne: "info_df \<noteq> []"
      and h: "horizon < 0"
      and chron: "\<forall>(t, d)\<in>set info_df. sorted_wrt (<) (map ddate (chron t)) \<and> d \<noteq> None"
      and foo: "\<forall>xs. foo xs = Inr (agg xs)"
  shows "DailyAggTarget_calculate (\<lambda>t. Some (rev (chron t))) col horizon foo info_df =
           Inr (map (\<lambda>(t, d). (t, d, agg (window_before col (nat (- horizon)) (chron t) (the d))))
                    info_df)
       \<and> DailyAggTarget_calculate (\<lambda>t. Some (chron t)) col horizon foo info_df =
           Inr (map (\<lambda>(t, d). (t, d, agg (rev (take (nat (- horizon))
                      (window_before col (length (chron t)) (chron t) (the d)))))) info_df)"
proof
  show "DailyAggTarget_calculate (\<lambda>t. Some (rev (chron t))) col horizon foo info_df =
           Inr (map (\<lambda>(t, d). (t, d, agg (window_before col (nat (- horizon)) (chron t) (the d))))
                    info_df)"
  proof (rule DailyAggTarget_calculate_ok[OF ne])
    fix t d assume "(t, d) \<in> set info_df"
    with chron obtain x where x: "d = Some x" and s: "sorted_wrt (<) (map ddate (chron t))"
      by auto
    from series_before_descending_supply[OF s h, of col x] x foo
    show "(case Some (rev (chron t)) of None \<Rightarrow> Inr NaN
           | Some daily \<Rightarrow> DailyAggTarget_date_value col horizon foo (rev daily) d)
          = Inr (agg (window_before col (nat (- horizon)) (chron t) (the d)))"
      by (simp add: DailyAggTarget_date_value_def)
  qed
  show "DailyAggTarget_calculate (\<lambda>t. Some (chron t)) col horizon foo info_df =
           Inr (map (\<lambda>(t, d). (t, d, agg (rev (take (nat (- horizon))
                      (window_before col (length (chron t)) (chron t) (the d)))))) info_df)"
  proof (rule DailyAggTarget_calculate_ok[OF ne])
    fix t d assume "(t, d) \<in> set info_df"
    with chron obtain x where x: "d = Some x" and s: "sorted_wrt (<) (map ddate (chron t))"
      by auto
    from series_before_ascending_supply[OF s h, of col x] x foo
    show "(case Some (chron t) of None \<Rightarrow> Inr NaN
           | Some daily \<Rightarrow> DailyAggTarget_date_value col horizon foo (rev daily) d)
          = Inr (agg (rev (take (nat (- horizon))
                   (window_before col (length (chron t)) (chron t) (the d)))))"
      by (simp add: DailyAggTarget_date_value_def)
  qed
qed

text \<open>
  The theorem at horizon \<open>-2\<close> with \<open>np.mean\<close>, requested at \<open>D + 3\<close>:
  \<open>mean(20, 30) = 25\<close> when the series is supplied newest first, \<open>mean(20, 10) = 15\<close> when
  it is supplied oldest first; and at horizon \<open>-3\<close>, supplied newest first,
  \<open>mean(10, 20, 30) = 20\<close> with the value at \<open>D + 3\<close> left out.
\<close>

theorem DailyAggTarget_backward_window_witness:
  "DailyAggTarget_calculate (\<lambda>t. Some (rev (example_daily t))) ''price'' (- 2) np_mean
     [(''AAPL'', Some 103), (''MSFT'', Some 60)]
     = Inr [(''AAPL'', Some 103, Num 25), (''MSFT'', Some 60, Num 1)]
   \<and> DailyAggTarget_calculate (\<lambda>t. Some (example_daily t)) ''price'' (- 2) np_mean
     [(''AAPL'', Some 103), (''MSFT'', Some 60)]
     = Inr [(''AAPL'', Some 103, Num 15), (''MSFT'', Some 60, Num 1)]
   \<and> DailyAggTarget_calculate (\<lambda>t. Some (rev (example_daily t))) ''price'' (- 3) np_mean
     [(''AAPL'', Some 103)]
     = Inr [(''AAPL'', Some 103, Num 20)]"
proof -
  let ?info = "[(''AAPL'', Some (103::int)), (''MSFT'', Some 60)]"
  let ?info1 = "[(''AAPL'', Some (103::int))]"
  have ne: "?info \<noteq> []" and ne1: "?info1 \<noteq> []" by simp_all
  have h: "(- 2::int) < 0" and h1: "(- 3::int) < 0" by simp_all
  have c: "\<forall>(t, d)\<in>set ?info. sorted_wrt (<) (map ddate (example_daily t)) \<and> d \<noteq> None"
    by (simp add: example_daily_AAPL example_daily_MSFT day_def)
  have c1: "\<forall>(t, d)\<in>set ?info1. sorted_wrt (<) (map ddate (example_daily t)) \<and> d \<noteq> None"
    by (simp add: example_daily_AAPL day_def)
  from DailyAggTarget_backward_window[OF ne h c np_mean_total, of "''price''"]
  have a: "DailyAggTarget_calculate (\<lambda>t. Some (rev (example_daily t))) ''price'' (- 2) np_mean ?info
             = Inr [(''AAPL'', Some 103, Num 25), (''MSFT'', Some 60, Num 1)]
         \<and> DailyAggTarget_calculate (\<lambda>t. Some (example_daily t)) ''price'' (- 2) np_mean ?info
             = Inr [(''AAPL'', Some 103, Num 15), (''MSFT'', Some 60, Num 1)]"
    by (simp add: window_before_def example_daily_AAPL example_daily_MSFT day_def
                  np_mean_value_def)
  from DailyAggTarget_backward_window[OF ne1 h1 c1 np_mean_total, of "''price''", THEN conjunct1]
  have b: "DailyAggTarget_calculate (\<lambda>t. Some (rev (example_daily t))) ''price'' (- 3) np_mean ?info1
             = Inr [(''AAPL'', Some 103, Num 20)]"
    by (simp add: window_before_def example_daily_AAPL day_def np_mean_value_def)
  from a b show ?thesis by simp
qed

text \<open>
  Claim C3 as stated fails: the series of the claim's example supplied in ascending date
  order, requested at \<open>D + 3 = 103\<close> with horizon \<open>-2\<close>, gives \<open>mean(20, 10) = 15\<close>: the two
  oldest days, not the two most recent days before the request date, whose mean is 25.
\<close>

theorem DailyAggTarget_backward_window_counterexample:
  "map ddate example_days = [100, 101, 102, 103]
   \<and> map (\<lambda>r. dcols r ''price'') example_days = [10, 20, 30, 40]
   \<and> DailyAggTarget_calculate (\<lambda>t. Some example_days) ''price'' (- 2) np_mean
        [(''AAPL'', Some 103)]
       = Inr [(''AAPL'', Some 103, Num 15)]
   \<and> np_mean [20, 30] = Inr (Num 25)"
  by (simp add: DailyAggTarget_calculate_def group_by_ticker_def
        DailyAggTarget_single_ticker_target_def DailyAggTarget_date_value_def DailyAggTarget_series_def
        pd_concat_def merge_left_def row_key_def row_y_def
        example_days_def day_def np_mean_def np_mean_value_def)

text \<open>
  Claim C5. Whenever \<open>QuarterlyTarget.calculate\<close> or \<open>DailyAggTarget.calculate\<close> returns a
  table, that table has exactly one row per row of the request table, with the same
  (entity, date) keys in the same positions, whatever the grouping by entity did:
  the partial results are deduplicated by key and left-joined onto the request table.
\<close>

theorem calculate_one_row_per_request_row:
  "(QuarterlyTarget_calculate quarterly_loader col quarter_shift info_df = Inr out
      \<longrightarrow> map row_key out = info_df)
   \<and> (DailyAggTarget_calculate daily_loader col' horizon foo info_df = Inr out'
      \<longrightarrow> map row_key out' = info_df)"
  unfolding QuarterlyTarget_calculate_dispatch DailyAggTarget_calculate_dispatch
  using dispatch_merge_keys by blast

text \<open>
  The theorem at request tables with repeated rows and entities out of alphabetical order,
  for both calculators.
\<close>

theorem calculate_one_row_per_request_row_witness:
  "QuarterlyTarget_calculate example_quarters ''revenue'' 1
     [(''MSFT'', Some 200), (''AAPL'', Some 90), (''MSFT'', Some 200), (''GOOG'', Some 91)]
   = Inr [(''MSFT'', Some 200, Num 7), (''AAPL'', Some 90, NaN), (''MSFT'', Some 200, Num 7),
          (''GOOG'', Some 91, NaN)]
   \<and> map row_key [(''MSFT'', Some 200, Num 7), (''AAPL'', Some 90, NaN),
                   (''MSFT'', Some 200, Num 7), (''GOOG'', Some 91, NaN)]
     = [(''MSFT'', Some 200), (''AAPL'', Some 90), (''MSFT'', Some 200), (''GOOG'', Some 91)]
   \<and> DailyAggTarget_calculate (\<lambda>t. if t = ''AAPL'' then Some (rev example_days) else None)
       ''price'' (- 1) np_mean [(''MSFT'', Some 102), (''AAPL'', Some 102), (''AAPL'', Some 102)]
   = Inr [(''MSFT'', Some 102, NaN), (''AAPL'', Some 102, Num 20), (''AAPL'', Some 102, Num 20)]
   \<and> map row_key [(''MSFT'', Some 102, NaN), (''AAPL'', Some 102, Num 20),
                   (''AAPL'', Some 102, Num 20)]
     = [(''MSFT'', Some 102), (''AAPL'', Some 102), (''AAPL'', Some 102)]"
proof -
  have q: "QuarterlyTarget_calculate example_quarters ''revenue'' 1
     [(''MSFT'', Some 200), (''AAPL'', Some 90), (''MSFT'', Some 200), (''GOOG'', Some 91)]
   = Inr [(''MSFT'', Some 200, Num 7), (''AAPL'', Some 90, NaN), (''MSFT'', Some 200, Num 7),
          (''GOOG'', Some 91, NaN)]"
    by (simp add: QuarterlyTarget_calculate_def group_by_ticker_def
          QuarterlyTarget_single_ticker_target_def QuarterlyTarget_date_value_def
          pd_concat_def merge_left_def row_key_def row_y_def getcol_def
          example_quarters_AAPL example_quarters_MSFT example_quarters_GOOG quarter_def
          Let_def)
  have d: "DailyAggTarget_calculate (\<lambda>t. if t = ''AAPL'' then Some (rev example_days) else None)
       ''price'' (- 1) np_mean [(''MSFT'', Some 102), (''AAPL'', Some 102), (''AAPL'', Some 102)]
   = Inr [(''MSFT'', Some 102, NaN), (''AAPL'', Some 102, Num 20), (''AAPL'', Some 102, Num 20)]"
    by (simp add: DailyAggTarget_calculate_def group_by_ticker_def
          DailyAggTarget_single_ticker_target_def DailyAggTarget_date_value_def DailyAggTarget_series_def
          pd_concat_def merge_left_def row_key_def row_y_def
          example_days_def day_def np_mean_def np_mean_value_def Let_def)
  note t = calculate_one_row_per_request_row
             [where quarterly_loader = example_quarters and col = "''revenue''"
                and quarter_shift = 1
                and daily_loader = "\<lambda>t. if t = ''AAPL'' then Some (rev example_days) else None"
                and col' = "''price''" and horizon = "- 1" and foo = np_mean]
  from t[THEN conjunct1, THEN mp, OF q] t[THEN conjunct2, THEN mp, OF d] q d
  show ?thesis by simp
qed

text \<open>
  Claim C7. Let the daily-data provider return no daily history for entity \<open>t0\<close>. Let every
  row requested for an entity that has daily data carry a date that is not null, and let
  the aggregation function raise nothing on the series of that row; the rows requested for
  \<open>t0\<close> may carry any date, the null date included. Then \<open>DailyAggTarget.calculate\<close> raises
  nothing, every row requested for \<open>t0\<close> has a null \<open>y\<close>, and the \<open>y\<close> of every other row is
  the aggregate of that row's own entity's series, as if \<open>t0\<close> had not been requested.
\<close>

theorem DailyAggTarget_absent_entity_is_null:
  assumes ne: "info_df \<noteq> []"
      and absent: "data_loader t0 = None"
      and ok: "\<forall>(t, d)\<in>set info_df. \<forall>daily. data_loader t = Some daily \<longrightarrow>
                 d \<noteq> None
                 \<and> (\<exists>y. foo (DailyAggTarget_series col horizon (rev daily) (the d)) = Inr y)"
  shows "DailyAggTarget_calculate data_loader col horizon foo info_df =
           Inr (map (\<lambda>(t, d).
                  (t, d,
                   if t = t0 then NaN
                   else (case data_loader t of
                           None \<Rightarrow> NaN
                         | Some daily \<Rightarrow>
                             projr (foo (DailyAggTarget_series col horizon (rev daily) (the d))))))
                info_df)"
proof (rule DailyAggTarget_calculate_ok[OF ne])
  fix t d assume mem: "(t, d) \<in> set info_df"
  show "(case data_loader t of None \<Rightarrow> Inr NaN
         | Some daily \<Rightarrow> DailyAggTarget_date_value col horizon foo (rev daily) d)
        = Inr (if t = t0 then NaN
               else (case data_loader t of
                       None \<Rightarrow> NaN
                     | Some daily \<Rightarrow>
                         projr (foo (DailyAggTarget_series col horizon (rev daily) (the d)))))"
  proof (cases "data_loader t")
    case None
    then show ?thesis by simp
  next
    case (Some daily)
    with absent have "t \<noteq> t0" by auto
    moreover from bspec[OF ok mem] Some
    have h: "d \<noteq> None
             \<and> (\<exists>y. foo (DailyAggTarget_series col horizon (rev daily) (the d)) = Inr y)"
      by simp
    then obtain x y where "d = Some x"
      and "foo (DailyAggTarget_series col horizon (rev daily) x) = Inr y" by auto
    ultimately show ?thesis using Some by (simp add: DailyAggTarget_date_value_def)
  qed
qed

text \<open>
  The theorem at a request table where the entity without daily history is asked for
  twice, once with the null date, around a row of an entity that has daily data.
\<close>

theorem DailyAggTarget_absent_entity_is_null_witness:
  "DailyAggTarget_calculate (\<lambda>t. if t = ''AAPL'' then Some (rev example_days) else None)
     ''price'' 3 np_mean [(''MSFT'', Some 100), (''AAPL'', Some 100), (''MSFT'', None)]
   = Inr [(''MSFT'', Some 100, NaN), (''AAPL'', Some 100, Num 20), (''MSFT'', None, NaN)]"
proof -
  let ?L = "\<lambda>t. if t = ''AAPL'' then Some (rev example_days) else None"
  let ?info = "[(''MSFT'', Some (100::int)), (''AAPL'', Some 100), (''MSFT'', None)]"
  have ne: "?info \<noteq> []" by simp
  have absent: "?L ''MSFT'' = None" by simp
  have ok: "\<forall>(t, d)\<in>set ?info. \<forall>daily. ?L t = Some daily \<longrightarrow>
              d \<noteq> None
              \<and> (\<exists>y. np_mean (DailyAggTarget_series ''price'' 3 (rev daily) (the d)) = Inr y)"
    by (simp add: np_mean_def)
  from DailyAggTarget_absent_entity_is_null[of ?info ?L "''MSFT''" np_mean "''price''" 3,
         OF ne absent ok]
  show ?thesis
    by (simp add: DailyAggTarget_series_def example_days_def day_def
                  np_mean_def np_mean_value_def)
qed

text \<open>
  Claim C9. Whenever the un-normalized quarterly difference is computed for a request table,
  \<open>QuarterlyBinDiffTarget.calculate\<close> returns a table with the same rows and keys, whose
  \<open>y\<close> is \<open>1.0\<close> on the rows where the difference is a positive number, \<open>0.0\<close> on the rows
  where it is a negative number, and null on the rows where it is null: the null rows are
  left out of the sign test.
\<close>

theorem QuarterlyBinDiffTarget_sign:
  assumes "QuarterlyDiffTarget_calculate data_loader col False info_df = Inr diff_df"
  shows "\<exists>out. QuarterlyBinDiffTarget_calculate data_loader col info_df = Inr out
           \<and> length out = length diff_df
           \<and> (\<forall>k<length diff_df.
                 row_key (out ! k) = row_key (diff_df ! k)
                 \<and> (\<forall>x>0. row_y (diff_df ! k) = Num x \<longrightarrow> row_y (out ! k) = Num 1)
                 \<and> (\<forall>x<0. row_y (diff_df ! k) = Num x \<longrightarrow> row_y (out ! k) = Num 0)
                 \<and> (row_y (diff_df ! k) = NaN \<longrightarrow> row_y (out ! k) = NaN))"
proof -
  let ?ys = "map binarize (map row_y diff_df)"
  let ?out = "set_y diff_df ?ys"
  have len: "length ?ys = length diff_df" by simp
  have rows: "row_key (?out ! k) = row_key (diff_df ! k)
              \<and> row_y (?out ! k) = binarize (row_y (diff_df ! k))"
    if "k < length diff_df" for k
    using set_y_nth[OF len that] that by simp
  have "QuarterlyBinDiffTarget_calculate data_loader col info_df = Inr ?out"
    using assms by (rule QuarterlyBinDiffTarget_calculate_Inr)
  moreover have "length ?out = length diff_df" using len by (rule length_set_y)
  moreover have "\<forall>k<length diff_df.
                 row_key (?out ! k) = row_key (diff_df ! k)
                 \<and> (\<forall>x>0. row_y (diff_df ! k) = Num x \<longrightarrow> row_y (?out ! k) = Num 1)
                 \<and> (\<forall>x<0. row_y (diff_df ! k) = Num x \<longrightarrow> row_y (?out ! k) = Num 0)
                 \<and> (row_y (diff_df ! k) = NaN \<longrightarrow> row_y (?out ! k) = NaN)"
    using rows by auto
  ultimately show ?thesis by blast
qed

text \<open>
  The theorem on four quarters with revenues 10, 15, 10, 10: the differences are
  \<open>+5\<close>, \<open>-5\<close>, null (no previous quarter) and \<open>0\<close>.
\<close>

theorem QuarterlyBinDiffTarget_sign_witness:
  "\<exists>out. QuarterlyBinDiffTarget_calculate (\<lambda>t. rev (example_quarters t)) ''revenue''
            [(''AAPL'', Some 181), (''AAPL'', Some 273), (''AAPL'', Some 90), (''AAPL'', Some 365)]
          = Inr out
        \<and> length out = 4
        \<and> row_y (out ! 0) = Num 1 \<and> row_y (out ! 1) = Num 0 \<and> row_y (out ! 2) = NaN"
proof -
  from QuarterlyBinDiffTarget_sign[OF example_diff] obtain out
    where o: "QuarterlyBinDiffTarget_calculate (\<lambda>t. rev (example_quarters t)) ''revenue''
            [(''AAPL'', Some 181), (''AAPL'', Some 273), (''AAPL'', Some 90), (''AAPL'', Some 365)]
          = Inr out"
      and l: "length out = 4"
      and r: "\<forall>k<4. (\<forall>x>0. row_y ([(''AAPL'', Some 181, Num 5), (''AAPL'', Some 273, Num (- 5)),
                       (''AAPL'', Some 90, NaN), (''AAPL'', Some (365::int), Num 0)] ! k) = Num x
                       \<longrightarrow> row_y (out ! k) = Num 1)
                \<and> (\<forall>x<0. row_y ([(''AAPL'', Some 181, Num 5), (''AAPL'', Some 273, Num (- 5)),
                       (''AAPL'', Some 90, NaN), (''AAPL'', Some (365::int), Num 0)] ! k) = Num x
                       \<longrightarrow> row_y (out ! k) = Num 0)
                \<and> (row_y ([(''AAPL'', Some 181, Num 5), (''AAPL'', Some 273, Num (- 5)),
                       (''AAPL'', Some 90, NaN), (''AAPL'', Some (365::int), Num 0)] ! k) = NaN
                       \<longrightarrow> row_y (out ! k) = NaN)"
    by auto
  from r[rule_format, of 0] have "row_y (out ! 0) = Num 1" by (simp add: row_y_def)
  moreover from r[rule_format, of 1] have "row_y (out ! 1) = Num 0" by (simp add: row_y_def)
  moreover from r[rule_format, of 2] have "row_y (out ! 2) = NaN" by (simp add: row_y_def)
  ultimately show ?thesis using o l by blast
qed

text \<open>
  Claim C10. On every row where the un-normalized quarterly difference is exactly zero,
  \<open>QuarterlyBinDiffTarget.calculate\<close> returns \<open>0.0\<close>: the test is \<open>y > 0\<close>, so no change counts
  with the decreases.
\<close>

theorem QuarterlyBinDiffTarget_zero:
  assumes "QuarterlyDiffTarget_calculate data_loader col False info_df = Inr diff_df"
  shows "\<exists>out. QuarterlyBinDiffTarget_calculate data_loader col info_df = Inr out
           \<and> length out = length diff_df
           \<and> (\<forall>k<length diff_df.
                 row_y (diff_df ! k) = Num 0 \<longrightarrow> row_y (out ! k) = Num 0)"
proof -
  let ?ys = "map binarize (map row_y diff_df)"
  let ?out = "set_y diff_df ?ys"
  have len: "length ?ys = length diff_df" by simp
  have rows: "row_y (?out ! k) = binarize (row_y (diff_df ! k))"
    if "k < length diff_df" for k
    using set_y_nth[OF len that] that by simp
  have "QuarterlyBinDiffTarget_calculate data_loader col info_df = Inr ?out"
    using assms by (rule QuarterlyBinDiffTarget_calculate_Inr)
  moreover have "length ?out = length diff_df" using len by (rule length_set_y)
  moreover have "\<forall>k<length diff_df.
                   row_y (diff_df ! k) = Num 0 \<longrightarrow> row_y (?out ! k) = Num 0"
    using rows by auto
  ultimately show ?thesis by blast
qed

text \<open>The theorem on the last of the four quarters, whose revenue did not change.\<close>

theorem QuarterlyBinDiffTarget_zero_witness:
  "\<exists>out. QuarterlyBinDiffTarget_calculate (\<lambda>t. rev (example_quarters t)) ''revenue''
            [(''AAPL'', Some 181), (''AAPL'', Some 273), (''AAPL'', Some 90), (''AAPL'', Some 365)]
          = Inr out
        \<and> length out = 4 \<and> row_y (out ! 3) = Num 0"
proof -
  from QuarterlyBinDiffTarget_zero[OF example_diff] obtain out
    where o: "QuarterlyBinDiffTarget_calculate (\<lambda>t. rev (example_quarters t)) ''revenue''
            [(''AAPL'', Some 181), (''AAPL'', Some 273), (''AAPL'', Some 90), (''AAPL'', Some 365)]
          = Inr out"
      and l: "length out = 4"
      and r: "\<forall>k<4. row_y ([(''AAPL'', Some 181, Num 5), (''AAPL'', Some 273, Num (- 5)),
                       (''AAPL'', Some 90, NaN), (''AAPL'', Some (365::int), Num 0)] ! k) = Num 0
                       \<longrightarrow> row_y (out ! k) = Num 0"
    by auto
  from r[rule_format, of 3] have "row_y (out ! 3) = Num 0" by (simp add: row_y_def)
  with o l show ?thesis by blast
qed

text \<open>
  Claim C6, as the code has it. Let every requested entity have distinct report dates, and
  every request date be a report date of its entity other than the one of the first row of
  the reversed series (the last row the provider supplies), so that the quarter at offset
  \<open>-1\<close> exists. Then both the single call at offset \<open>-1\<close> and the composition succeed
  (rebasing the request dates through the \<open>date\<close> column at offset \<open>-1\<close>, then reading the
  column at offset \<open>0\<close>), they return one row per request row for the same entities, and
  their \<open>y\<close> columns are equal.
\<close>

theorem quarterly_two_pass_equals_single_call:
  assumes ne: "info_df \<noteq> []"
      and ok: "\<forall>(t, d)\<in>set info_df.
                 distinct (map qdate (data_loader t))
                 \<and> d \<in> Some ` qdate ` set (data_loader t)
                 \<and> d \<noteq> Some (qdate (last (data_loader t)))"
  shows "\<exists>single composed.
           QuarterlyTarget_calculate data_loader col (- 1) info_df = Inr single
           \<and> quarterly_two_pass data_loader col info_df = Inr composed
           \<and> map fst composed = map fst info_df
           \<and> map row_key single = info_df
           \<and> map row_y composed = map row_y single"
proof -
  let ?qs = "\<lambda>t. rev (data_loader t)"
  let ?v = "\<lambda>c t d. quarter_at_offset c (?qs t) (the d) (- 1)"
  let ?r = "\<lambda>t d. (case ?v ''date'' t d of Date p \<Rightarrow> Some p | _ \<Rightarrow> None)"
  let ?info' = "map (\<lambda>(t, d). (t, ?r t d)) info_df"
  have row: "\<exists>x p. d = Some x \<and> x \<in> qdate ` set (?qs t) \<and> ?v ''date'' t d = Date p
                 \<and> p \<in> qdate ` set (?qs t)
                 \<and> quarter_at_offset col (?qs t) p 0 = ?v col t d"
    if m: "(t, d) \<in> set info_df" for t d
  proof -
    from bspec[OF ok m]
    have h: "distinct (map qdate (data_loader t))
             \<and> d \<in> Some ` qdate ` set (data_loader t)
             \<and> d \<noteq> Some (qdate (last (data_loader t)))" by simp
    then obtain x where x: "d = Some x" "x \<in> qdate ` set (data_loader t)" by blast
    from h have dist: "distinct (map qdate (data_loader t))" by simp
    from h x(1) have nl: "x \<noteq> qdate (last (data_loader t))" by simp
    from x(2) have nonempty: "data_loader t \<noteq> []" by auto
    have d': "distinct (map qdate (?qs t))" using dist by (simp add: rev_map[symmetric])
    have m': "x \<in> qdate ` set (?qs t)" using x(2) by simp
    have nf: "x \<noteq> qdate (hd (?qs t))" using nl nonempty by (simp add: hd_rev)
    from previous_quarter_rebased[OF d' m' nf, of col] x(1) m' show ?thesis by auto
  qed
  have single: "QuarterlyTarget_calculate data_loader col (- 1) info_df
                  = Inr (map (\<lambda>(t, d). (t, d, ?v col t d)) info_df)"
  proof (rule QuarterlyTarget_calculate_ok[OF ne])
    fix t d assume "(t, d) \<in> set info_df"
    from row[OF this] obtain x where "d = Some x" "x \<in> qdate ` set (?qs t)" by blast
    with QuarterlyTarget_date_value_chron[of x "?qs t" col "- 1"]
    show "QuarterlyTarget_date_value col (- 1) (?qs t) d = Inr (?v col t d)" by simp
  qed
  have first: "QuarterlyTarget_calculate data_loader ''date'' (- 1) info_df
                  = Inr (map (\<lambda>(t, d). (t, d, ?v ''date'' t d)) info_df)"
  proof (rule QuarterlyTarget_calculate_ok[OF ne])
    fix t d assume "(t, d) \<in> set info_df"
    from row[OF this] obtain x where "d = Some x" "x \<in> qdate ` set (?qs t)" by blast
    with QuarterlyTarget_date_value_chron[of x "?qs t" "''date''" "- 1"]
    show "QuarterlyTarget_date_value ''date'' (- 1) (?qs t) d = Inr (?v ''date'' t d)" by simp
  qed
  have rebased: "rebase_dates (map (\<lambda>(t, d). (t, d, ?v ''date'' t d)) info_df) = ?info'"
    by (simp add: rebase_dates_def row_y_def case_prod_beta)
  have ne': "?info' \<noteq> []" using ne by simp
  let ?w = "\<lambda>t d'. quarter_at_offset col (?qs t) (the d') 0"
  have second: "QuarterlyTarget_calculate data_loader col 0 ?info'
                  = Inr (map (\<lambda>(t, d'). (t, d', ?w t d')) ?info')"
  proof (rule QuarterlyTarget_calculate_ok[OF ne'])
    fix t d' assume "(t, d') \<in> set ?info'"
    then obtain d where m: "(t, d) \<in> set info_df" and d': "d' = ?r t d" by auto
    from row[OF m] obtain p where "?v ''date'' t d = Date p" "p \<in> qdate ` set (?qs t)"
      by blast
    with d' have "d' = Some p" "p \<in> qdate ` set (?qs t)" by simp_all
    with QuarterlyTarget_date_value_chron[of p "?qs t" col 0]
    show "QuarterlyTarget_date_value col 0 (?qs t) d' = Inr (?w t d')" by simp
  qed
  let ?single = "map (\<lambda>(t, d). (t, d, ?v col t d)) info_df"
  let ?composed = "map (\<lambda>(t, d'). (t, d', ?w t d')) ?info'"
  have two: "quarterly_two_pass data_loader col info_df = Inr ?composed"
    using first rebased second by (simp add: quarterly_two_pass_def)
  have keys: "map fst ?composed = map fst info_df"
    by (simp add: case_prod_beta comp_def)
  have skeys: "map row_key ?single = info_df"
    by (simp add: case_prod_beta comp_def row_key_def)
  have ys: "map row_y ?composed = map row_y ?single"
  proof -
    have "row_y (case (case r of (t, d) \<Rightarrow> (t, ?r t d)) of (t, d') \<Rightarrow> (t, d', ?w t d'))
            = row_y (case r of (t, d) \<Rightarrow> (t, d, ?v col t d))"
      if "r \<in> set info_df" for r
    proof -
      obtain t d where td: "r = (t, d)" by (cases r)
      with that have "(t, d) \<in> set info_df" by simp
      from row[OF this] obtain p where "?v ''date'' t d = Date p"
        "quarter_at_offset col (?qs t) p 0 = ?v col t d" by blast
      with td show ?thesis by (simp add: row_y_def)
    qed
    then show ?thesis by (simp add: comp_def)
  qed
  from single two keys skeys ys show ?thesis by blast
qed

text \<open>
  The theorem on three request rows, the series supplied newest first: the single call and
  the composition both give the revenues of the previous quarters.
\<close>

theorem quarterly_two_pass_equals_single_call_witness:
  "QuarterlyTarget_calculate (\<lambda>t. rev (example_quarters t)) ''revenue'' (- 1)
     [(''GOOG'', Some 182), (''MSFT'', Some 200), (''GOOG'', Some 274)]
   = Inr [(''GOOG'', Some 182, Num 100), (''MSFT'', Some 200, Num 7),
          (''GOOG'', Some 274, Num 110)]
   \<and> (\<exists>composed.
         quarterly_two_pass (\<lambda>t. rev (example_quarters t)) ''revenue''
           [(''GOOG'', Some 182), (''MSFT'', Some 200), (''GOOG'', Some 274)] = Inr composed
         \<and> map fst composed = [''GOOG'', ''MSFT'', ''GOOG'']
         \<and> map row_y composed = [Num 100, Num 7, Num 110])"
proof -
  let ?L = "\<lambda>t. rev (example_quarters t)"
  let ?info = "[(''GOOG'', Some (182::int)), (''MSFT'', Some 200), (''GOOG'', Some 274)]"
  have ne: "?info \<noteq> []" by simp
  have ok: "\<forall>(t, d)\<in>set ?info. distinct (map qdate (?L t))
              \<and> d \<in> Some ` qdate ` set (?L t) \<and> d \<noteq> Some (qdate (last (?L t)))"
    by (simp add: example_quarters_GOOG example_quarters_MSFT quarter_def)
  have e: "QuarterlyTarget_calculate ?L ''revenue'' (- 1) ?info
             = Inr [(''GOOG'', Some 182, Num 100), (''MSFT'', Some 200, Num 7),
                    (''GOOG'', Some 274, Num 110)]"
    by (simp add: QuarterlyTarget_calculate_def group_by_ticker_def
          QuarterlyTarget_single_ticker_target_def QuarterlyTarget_date_value_def
          pd_concat_def merge_left_def row_key_def row_y_def getcol_def
          example_quarters_GOOG example_quarters_MSFT quarter_def Let_def)
  from quarterly_two_pass_equals_single_call[OF ne ok, of "''revenue''"]
  obtain single composed
    where s: "QuarterlyTarget_calculate ?L ''revenue'' (- 1) ?info = Inr single"
      and c: "quarterly_two_pass ?L ''revenue'' ?info = Inr composed"
      and k: "map fst composed = map fst ?info"
      and y: "map row_y composed = map row_y single"
    by blast
  from s e have "single = [(''GOOG'', Some 182, Num 100), (''MSFT'', Some 200, Num 7),
                           (''GOOG'', Some 274, Num 110)]" by simp
  with y have yy: "map row_y composed = [Num 100, Num 7, Num 110]" by (simp add: row_y_def)
  from k have kk: "map fst composed = [''GOOG'', ''MSFT'', ''GOOG'']" by simp
  have "\<exists>composed. quarterly_two_pass ?L ''revenue'' ?info = Inr composed
          \<and> map fst composed = [''GOOG'', ''MSFT'', ''GOOG'']
          \<and> map row_y composed = [Num 100, Num 7, Num 110]"
    by (rule exI[of _ composed]) (rule conjI[OF c conjI[OF kk yy]])
  with e show ?thesis by (rule conjI)
qed

text \<open>
  Claim C6 as stated fails at a request date that matches the quarter with no quarter at
  offset \<open>-1\<close>: here the earliest quarter, report date 91, of a series supplied newest
  first. The single call returns null for it. In the composition the first pass returns a
  null date, which the second pass requests: the null date is no report date, the
  exact-match assertion fails and the composed call raises.
\<close>

theorem quarterly_two_pass_counterexample:
  "QuarterlyTarget_calculate (\<lambda>t. rev (example_quarters t)) ''revenue'' (- 1)
     [(''GOOG'', Some 91)] = Inr [(''GOOG'', Some 91, NaN)]
   \<and> QuarterlyTarget_calculate (\<lambda>t. rev (example_quarters t)) ''date'' (- 1)
     [(''GOOG'', Some 91)] = Inr [(''GOOG'', Some 91, NaN)]
   \<and> quarterly_two_pass (\<lambda>t. rev (example_quarters t)) ''revenue'' [(''GOOG'', Some 91)]
     = Inl AssertionError"
  by (simp add: quarterly_two_pass_def rebase_dates_def
        QuarterlyTarget_calculate_def group_by_ticker_def
        QuarterlyTarget_single_ticker_target_def QuarterlyTarget_date_value_def
        pd_concat_def merge_left_def row_key_def row_y_def getcol_def
        example_quarters_GOOG quarter_def Let_def)

end
